theory Spec2Isabelle
  imports Main "HOL-Library.Word" "HOL-Library.Multiset"
begin

section \<open>Shared RHI layer: shader objects, specialization signatures and the shader cache\<close>

text \<open>
  The development embeds the shared layer of the RHI (the header that declares
  \<^verbatim>\<open>ShaderObjectLayout\<close>, \<^verbatim>\<open>ShaderObjectBaseImpl\<close>, \<^verbatim>\<open>ComponentKey\<close>,
  \<^verbatim>\<open>PipelineKey\<close> and \<^verbatim>\<open>ShaderCache\<close>). Pointers to reflection objects,
  pipelines and buffers are identities (natural numbers); a pointer that may be null is
  an \<open>option\<close>. A run that the C++ leaves undefined (a null dereference, an access
  outside a vector) or that an assertion aborts is a \<open>fault\<close>, the left summand of the
  result of every operation.
\<close>

subsection \<open>Result codes and faults\<close>

text \<open>
  The result codes the shared layer returns. \<^verbatim>\<open>SLANG_FAILED\<close> holds of every code
  but \<^verbatim>\<open>SLANG_OK\<close>.
\<close>

datatype Result =
    SLANG_OK
  | SLANG_FAIL
  | SLANG_E_NOT_IMPLEMENTED
  | SLANG_E_INVALID_ARG
  | SLANG_E_NOT_AVAILABLE

definition SLANG_FAILED :: "Result \<Rightarrow> bool" where
  "SLANG_FAILED r = (r \<noteq> SLANG_OK)"

datatype fault = AssertionFailure | OutOfBounds | NullDereference

text \<open>
  Indexing a \<^verbatim>\<open>std::vector\<close> or \<^verbatim>\<open>short_vector\<close> with a signed index: inside
  the vector it reads the element, outside it the C++ is undefined.
\<close>

definition at :: "'a list \<Rightarrow> int \<Rightarrow> fault + 'a" where
  "at xs i = (if 0 \<le> i \<and> i < int (length xs) then Inr (xs ! nat i) else Inl OutOfBounds)"

text \<open>\<^verbatim>\<open>std::vector::resize\<close>: truncates, or pads with value-initialised elements.\<close>

definition resize :: "nat \<Rightarrow> 'a \<Rightarrow> 'a list \<Rightarrow> 'a list" where
  "resize n d xs = take n xs @ replicate (n - length xs) d"

subsection \<open>Component identities and cache keys\<close>

type_synonym ShaderComponentID = "32 word"

definition kInvalidComponentID :: ShaderComponentID where
  "kInvalidComponentID = 0xFFFFFFFF"

type_synonym TypeReflection = nat
type_synonym Pipeline = nat
type_synonym Buffer = nat

record ComponentKey =
  typeName :: string
  specializationArgs :: "ShaderComponentID list"
  hash :: "64 word"

text \<open>
  The loop of \<^verbatim>\<open>operator==\<close>, from index \<open>i\<close> up to the size of the other list.
  It runs only after the two sizes were found equal, so both reads are inside.
\<close>

function argsEqualFrom :: "nat \<Rightarrow> ShaderComponentID list \<Rightarrow> ShaderComponentID list \<Rightarrow> bool" where
  "argsEqualFrom i xs ys =
     (if i < length ys
      then (if xs ! i \<noteq> ys ! i then False else argsEqualFrom (Suc i) xs ys)
      else True)"
  by pat_completeness auto
termination
  by (relation "measure (\<lambda>(i, xs, ys). length ys - i)") auto

definition ComponentKey_eq :: "ComponentKey \<Rightarrow> ComponentKey \<Rightarrow> bool" where
  "ComponentKey_eq k other =
     (if typeName k \<noteq> typeName other then False
      else if length (specializationArgs k) \<noteq> length (specializationArgs other) then False
      else argsEqualFrom 0 (specializationArgs k) (specializationArgs other))"

record PipelineKey =
  pipeline :: Pipeline
  specializationArgs :: "ShaderComponentID list"
  hash :: "64 word"

definition PipelineKey_eq :: "PipelineKey \<Rightarrow> PipelineKey \<Rightarrow> bool" where
  "PipelineKey_eq k other =
     (if pipeline k \<noteq> pipeline other then False
      else if length (PipelineKey.specializationArgs k) \<noteq> length (PipelineKey.specializationArgs other)
      then False
      else argsEqualFrom 0 (PipelineKey.specializationArgs k) (PipelineKey.specializationArgs other))"

subsection \<open>The shader cache\<close>

text \<open>
  A \<^verbatim>\<open>std::unordered_map\<close> is the list of its entries; \<open>find\<close> returns the entry
  whose key the map's equality accepts. (The container requires the hasher to agree
  with the equality, so the bucket a key falls in does not change what is found.)
\<close>

fun umap_find :: "('k \<Rightarrow> 'k \<Rightarrow> bool) \<Rightarrow> ('k \<times> 'v) list \<Rightarrow> 'k \<Rightarrow> ('k \<times> 'v) option" where
  "umap_find eq [] k = None"
| "umap_find eq ((k', v) # es) k = (if eq k' k then Some (k', v) else umap_find eq es k)"

record ShaderCache =
  componentIds :: "(ComponentKey \<times> ShaderComponentID) list"
  specializedPipelines :: "(PipelineKey \<times> Pipeline) list"

definition getSpecializedPipeline :: "ShaderCache \<Rightarrow> PipelineKey \<Rightarrow> Pipeline option" where
  "getSpecializedPipeline c programKey =
     (case umap_find PipelineKey_eq (specializedPipelines c) programKey of
        Some it \<Rightarrow> Some (snd it)
      | None \<Rightarrow> None)"

definition free :: "ShaderCache \<Rightarrow> ShaderCache" where
  "free c = c\<lparr>specializedPipelines := [], componentIds := []\<rparr>"

subsection \<open>Reflection type layouts and shader object layouts\<close>

text \<open>
  What the reflection service reports of a type layout, as far as the shared layer asks:
  its type (absent for an anonymous wrapper), its kind, its resource shape, its element
  type layout and its stride. The kinds and shapes are those the code tests for; every
  other one is \<open>KindOther\<close> or \<open>OtherShape\<close>.
\<close>

datatype Kind =
    KindStruct
  | KindArray
  | KindResource
  | KindConstantBuffer
  | KindParameterBlock
  | KindInterface
  | KindOther

datatype ResourceShape =
    SLANG_STRUCTURED_BUFFER
  | SLANG_BYTE_ADDRESS_BUFFER
  | SLANG_TEXTURE_2D
  | OtherShape

datatype TypeLayoutReflection = TypeLayoutReflection
  (getType: "TypeReflection option")
  (getKind: Kind)
  (getResourceShape: ResourceShape)
  (getElementTypeLayout: "TypeLayoutReflection option")
  (getStride: nat)

datatype ShaderObjectContainerType = ContainerNone | ContainerArray | ContainerStructuredBuffer

text \<open>
  \<^verbatim>\<open>SLANG_RHI_ASSERT(c)\<close> aborts on a false condition when the build checks
  assertions. The macro is defined outside the header, so the build's choice is the
  parameter \<open>checked\<close>; \<open>SLANG_RHI_ASSERT checked c\<close> tells whether the run aborts.
\<close>

definition SLANG_RHI_ASSERT :: "bool \<Rightarrow> bool \<Rightarrow> bool" where
  "SLANG_RHI_ASSERT checked c = (checked \<and> \<not> c)"

text \<open>
  \<^verbatim>\<open>ShaderObjectLayout::_unwrapParameterGroups\<close>. The state of the \<^verbatim>\<open>for (;;)\<close>
  loop is the pointer \<open>typeLayout\<close> and \<open>outContainerType\<close>; the function returns the
  final pointer with the container type. A \<^verbatim>\<open>break\<close> inside the \<^verbatim>\<open>switch\<close>
  leaves the \<^verbatim>\<open>switch\<close> only, so the loop goes round again with the same state.
  A run that never returns is the value \<open>None\<close>.
\<close>

partial_function (option) unwrapLoop ::
  "bool \<Rightarrow> TypeLayoutReflection option \<Rightarrow> ShaderObjectContainerType \<Rightarrow>
     (fault + TypeLayoutReflection option \<times> ShaderObjectContainerType) option" where
  "unwrapLoop checked typeLayout outContainerType =
     (case typeLayout of
        None \<Rightarrow> Some (Inl NullDereference)
      | Some entered \<Rightarrow>
          (let current = (if getType entered = None
                     then (case getElementTypeLayout entered of
                             Some elementTypeLayout \<Rightarrow> elementTypeLayout
                           | None \<Rightarrow> entered)
                     else entered)
           in if getKind current = KindArray then
                (if SLANG_RHI_ASSERT checked (outContainerType = ContainerNone)
                 then Some (Inl AssertionFailure)
                 else Some (Inr (getElementTypeLayout current, ContainerArray)))
              else if getKind current = KindResource then
                (if getResourceShape current \<noteq> SLANG_STRUCTURED_BUFFER
                 then unwrapLoop checked (Some current) outContainerType
                 else if SLANG_RHI_ASSERT checked (outContainerType = ContainerNone)
                 then Some (Inl AssertionFailure)
                 else Some (Inr (getElementTypeLayout current, ContainerStructuredBuffer)))
              else if getKind current = KindConstantBuffer \<or> getKind current = KindParameterBlock then
                unwrapLoop checked (getElementTypeLayout current) outContainerType
              else Some (Inr (Some current, outContainerType))))"

definition unwrapParameterGroups ::
  "bool \<Rightarrow> TypeLayoutReflection option \<Rightarrow>
     (fault + TypeLayoutReflection option \<times> ShaderObjectContainerType) option" where
  "unwrapParameterGroups checked typeLayout = unwrapLoop checked typeLayout ContainerNone"

text \<open>
  A type layout in which no resource other than a structured buffer occurs, neither at
  the top nor in an element type layout at any depth.
\<close>

fun noPlainResource :: "TypeLayoutReflection \<Rightarrow> bool" where
  "noPlainResource (TypeLayoutReflection ty k shape element stride) =
     (\<not> (k = KindResource \<and> shape \<noteq> SLANG_STRUCTURED_BUFFER) \<and>
      (case element of None \<Rightarrow> True | Some e \<Rightarrow> noPlainResource e))"

text \<open>
  The binding ranges and sub-object ranges of a layout are kept by the layout class of
  each backend (\<^verbatim>\<open>getBindingRangeCount\<close>, \<^verbatim>\<open>getBindingRange\<close>,
  \<^verbatim>\<open>getSubObjectRanges\<close>); the fields are those the shared layer reads. The binding
  types are those it tests for; every other one is \<open>OtherBindingType\<close>.
\<close>

datatype BindingType =
    ExistentialValue
  | MutableRawBuffer
  | RawBuffer
  | ParameterBlock
  | ConstantBuffer
  | OtherBindingType

record BindingRangeInfo =
  bindingType :: BindingType
  count_range :: int
  subObjectIndex :: int
  isSpecializable :: bool

record SubObjectRangeInfo =
  bindingRangeIndex :: int

record ShaderObjectLayout =
  m_elementTypeLayout :: "TypeLayoutReflection option"
  m_componentID :: ShaderComponentID
  m_containerType :: ShaderObjectContainerType
  m_bindingRanges :: "BindingRangeInfo list"
  m_subObjectRanges :: "SubObjectRangeInfo list"

record ShaderOffset =
  uniformOffset :: int
  bindingRangeIndex :: int
  bindingArrayIndex :: int

subsection \<open>Extended shader object types and their lists\<close>

datatype SpecializationArgKind = Unknown | Type

record SpecializationArg =
  kind :: SpecializationArgKind
  type :: "TypeReflection option"

definition fromType :: "TypeReflection option \<Rightarrow> SpecializationArg" where
  "fromType t = \<lparr>kind = Type, type = t\<rparr>"

record ExtendedShaderObjectType =
  slangType :: "TypeReflection option"
  componentID :: ShaderComponentID

record ExtendedShaderObjectTypeList =
  componentIDs :: "ShaderComponentID list"
  components :: "SpecializationArg list"

definition emptyList :: ExtendedShaderObjectTypeList where
  "emptyList = \<lparr>componentIDs = [], components = []\<rparr>"

definition getCount :: "ExtendedShaderObjectTypeList \<Rightarrow> nat" where
  "getCount l = length (componentIDs l)"

definition add :: "ExtendedShaderObjectTypeList \<Rightarrow> ExtendedShaderObjectType \<Rightarrow> ExtendedShaderObjectTypeList" where
  "add l component =
     l\<lparr>componentIDs := componentIDs l @ [componentID component],
       components := components l @ [\<lparr>kind = Type, type = slangType component\<rparr>]\<rparr>"

text \<open>\<^verbatim>\<open>operator[]\<close>: reads both vectors at the index.\<close>

definition index :: "ExtendedShaderObjectTypeList \<Rightarrow> int \<Rightarrow> fault + ExtendedShaderObjectType" where
  "index l i =
     (case at (componentIDs l) i of
        Inl f \<Rightarrow> Inl f
      | Inr c \<Rightarrow>
          (case at (components l) i of
             Inl f \<Rightarrow> Inl f
           | Inr a \<Rightarrow> Inr \<lparr>slangType = type a, componentID = c\<rparr>))"

text \<open>The loop of \<^verbatim>\<open>addRange\<close>, from index \<open>i\<close>.\<close>

function addRangeFrom ::
  "nat \<Rightarrow> ExtendedShaderObjectTypeList \<Rightarrow> ExtendedShaderObjectTypeList \<Rightarrow> fault + ExtendedShaderObjectTypeList" where
  "addRangeFrom i l list =
     (if i < getCount list
      then (case index list (int i) of
              Inl f \<Rightarrow> Inl f
            | Inr component \<Rightarrow> addRangeFrom (Suc i) (add l component) list)
      else Inr l)"
  by pat_completeness auto
termination
  by (relation "measure (\<lambda>(i, l, list). getCount list - i)") auto

definition addRange ::
  "ExtendedShaderObjectTypeList \<Rightarrow> ExtendedShaderObjectTypeList \<Rightarrow> fault + ExtendedShaderObjectTypeList" where
  "addRange l list = addRangeFrom 0 l list"

definition clear :: "ExtendedShaderObjectTypeList \<Rightarrow> ExtendedShaderObjectTypeList" where
  "clear l = l\<lparr>componentIDs := [], components := []\<rparr>"

subsection \<open>Shader objects\<close>

datatype State = Initial | Initialized | Finalized

text \<open>
  A shader object owns its sub-objects through reference-counted pointers; the model
  holds them by value, so an object is the tree of its sub-objects (a null entry of
  \<^verbatim>\<open>m_objects\<close> is \<open>None\<close>). \<open>m_data\<close> is the byte vector
  \<^verbatim>\<open>m_data.m_ordinaryData\<close>; \<open>impl\<close> is the state that the implementation class of a
  backend adds to the shared base.
\<close>

datatype 'b ShaderObject = ShaderObject
  (m_layout: ShaderObjectLayout)
  (m_state: State)
  (m_data: "8 word list")
  (m_objects: "'b ShaderObject option list")
  (m_userProvidedSpecializationArgs: "ExtendedShaderObjectTypeList option list")
  (m_structuredBufferSpecializationArgs: ExtendedShaderObjectTypeList)
  (impl: 'b)

definition isFinalized :: "'b ShaderObject \<Rightarrow> bool" where
  "isFinalized obj = (m_state obj = Finalized)"

definition with_state :: "State \<Rightarrow> 'b ShaderObject \<Rightarrow> 'b ShaderObject" where
  "with_state st obj =
     ShaderObject (m_layout obj) st (m_data obj) (m_objects obj)
       (m_userProvidedSpecializationArgs obj) (m_structuredBufferSpecializationArgs obj) (impl obj)"

definition with_data :: "8 word list \<Rightarrow> 'b ShaderObject \<Rightarrow> 'b ShaderObject" where
  "with_data d obj =
     ShaderObject (m_layout obj) (m_state obj) d (m_objects obj)
       (m_userProvidedSpecializationArgs obj) (m_structuredBufferSpecializationArgs obj) (impl obj)"

definition with_objects :: "'b ShaderObject option list \<Rightarrow> 'b ShaderObject \<Rightarrow> 'b ShaderObject" where
  "with_objects os obj =
     ShaderObject (m_layout obj) (m_state obj) (m_data obj) os
       (m_userProvidedSpecializationArgs obj) (m_structuredBufferSpecializationArgs obj) (impl obj)"

definition with_userArgs ::
  "ExtendedShaderObjectTypeList option list \<Rightarrow> 'b ShaderObject \<Rightarrow> 'b ShaderObject" where
  "with_userArgs us obj =
     ShaderObject (m_layout obj) (m_state obj) (m_data obj) (m_objects obj)
       us (m_structuredBufferSpecializationArgs obj) (impl obj)"

definition with_structuredBufferArgs ::
  "ExtendedShaderObjectTypeList \<Rightarrow> 'b ShaderObject \<Rightarrow> 'b ShaderObject" where
  "with_structuredBufferArgs l obj =
     ShaderObject (m_layout obj) (m_state obj) (m_data obj) (m_objects obj)
       (m_userProvidedSpecializationArgs obj) l (impl obj)"

text \<open>
  What the header declares and leaves to other files: the build's choice for
  assertions; the session's dynamic type and the component id the shader cache gives a
  type; the methods \<^verbatim>\<open>setData\<close> and \<^verbatim>\<open>setBinding\<close> of the implementation class;
  \<^verbatim>\<open>setExistentialHeader\<close>, \<^verbatim>\<open>_doesValueFitInExistentialPayload\<close>,
  \<^verbatim>\<open>getSpecializedShaderObjectType\<close> and \<^verbatim>\<open>getBufferResource\<close>; and the
  reflection query \<^verbatim>\<open>getBindingRangeLeafTypeLayout\<close>. They are parameters of the
  model, so every theorem holds for each way of filling them in. The methods that write
  to the object return it updated; the two that only fill caches of the sub-object
  (its specialized type, its buffer resource) return their value alone.

  Modelled from the spec: \<^verbatim>\<open>ShaderCache::getComponentId\<close> is declared without its
  body. The same key yields the same id for the lifetime of the cache, so within one
  such lifetime it is a function of the type.
\<close>

record 'b Backend =
  asserts :: bool
  getDynamicType :: "TypeReflection option"
  getComponentId :: "TypeReflection option \<Rightarrow> ShaderComponentID"
  setData :: "ShaderOffset \<Rightarrow> 8 word list \<Rightarrow> 'b ShaderObject \<Rightarrow> Result \<times> 'b ShaderObject"
  setBinding :: "ShaderOffset \<Rightarrow> Buffer \<Rightarrow> 'b ShaderObject \<Rightarrow> Result \<times> 'b ShaderObject"
  setExistentialHeader ::
    "TypeReflection option \<Rightarrow> TypeReflection option \<Rightarrow> ShaderOffset \<Rightarrow> 'b ShaderObject
       \<Rightarrow> Result \<times> 'b ShaderObject"
  doesValueFitInExistentialPayload :: "TypeLayoutReflection \<Rightarrow> TypeLayoutReflection \<Rightarrow> bool"
  getSpecializedShaderObjectType :: "'b ShaderObject \<Rightarrow> Result \<times> ExtendedShaderObjectType"
  getBufferResource :: "'b ShaderObject \<Rightarrow> BindingType \<Rightarrow> Buffer option"
  getBindingRangeLeafTypeLayout :: "TypeLayoutReflection \<Rightarrow> int \<Rightarrow> TypeLayoutReflection option"

subsection \<open>Merging specialization signatures\<close>

text \<open>
  The loop that both \<^verbatim>\<open>setSpecializationArgsForContainerElement\<close> (with
  \<open>oldArgsCount = 0\<close> and \<open>n\<close> the stored count) and \<^verbatim>\<open>collectSpecializationArgs\<close>
  run: for \<open>i\<close> below \<open>n\<close>, where the component id of \<open>args[i + oldArgsCount]\<close> differs
  from that of \<open>typeArgs[i]\<close>, both vectors of \<open>args\<close> get the dynamic type there.
\<close>

function replaceDiffering ::
  "'b Backend \<Rightarrow> nat \<Rightarrow> nat \<Rightarrow> nat \<Rightarrow> ExtendedShaderObjectTypeList \<Rightarrow> ExtendedShaderObjectTypeList
     \<Rightarrow> fault + ExtendedShaderObjectTypeList" where
  "replaceDiffering B oldArgsCount n i args typeArgs =
     (if i < n
      then (case index args (int (i + oldArgsCount)) of
              Inl f \<Rightarrow> Inl f
            | Inr a \<Rightarrow>
                (case index typeArgs (int i) of
                   Inl f \<Rightarrow> Inl f
                 | Inr b \<Rightarrow>
                     if componentID a \<noteq> componentID b
                     then (let dynamicType = getDynamicType B
                           in replaceDiffering B oldArgsCount n (Suc i)
                                (args\<lparr>componentIDs :=
                                         (componentIDs args)[i + oldArgsCount := getComponentId B dynamicType],
                                       components :=
                                         (components args)[i + oldArgsCount := fromType dynamicType]\<rparr>)
                                typeArgs)
                     else replaceDiffering B oldArgsCount n (Suc i) args typeArgs))
      else Inr args)"
  by pat_completeness auto
termination
  by (relation "measure (\<lambda>(B, oldArgsCount, n, i, args, typeArgs). n - i)") auto

definition setSpecializationArgsForContainerElement ::
  "'b Backend \<Rightarrow> 'b ShaderObject \<Rightarrow> ExtendedShaderObjectTypeList \<Rightarrow> fault + 'b ShaderObject" where
  "setSpecializationArgsForContainerElement B obj specArgs =
     (if getCount (m_structuredBufferSpecializationArgs obj) = 0
      then Inr (with_structuredBufferArgs specArgs obj)
      else if SLANG_RHI_ASSERT (asserts B)
                (getCount (m_structuredBufferSpecializationArgs obj) = getCount specArgs)
      then Inl AssertionFailure
      else (case replaceDiffering B 0 (getCount (m_structuredBufferSpecializationArgs obj)) 0
                   (m_structuredBufferSpecializationArgs obj) specArgs of
              Inl f \<Rightarrow> Inl f
            | Inr merged \<Rightarrow> Inr (with_structuredBufferArgs merged obj)))"

subsection \<open>Collecting specialization arguments\<close>

text \<open>
  The \<^verbatim>\<open>switch\<close> on the binding type inside \<^verbatim>\<open>collectSpecializationArgs\<close>: the
  type arguments that one bound sub-object contributes. \<open>subCollect\<close> is the
  sub-object's own \<^verbatim>\<open>collectSpecializationArgs\<close>. A failure returns at once, with
  the code that failed.
\<close>

definition deriveTypeArgs ::
  "'b Backend \<Rightarrow> BindingRangeInfo \<Rightarrow> 'b ShaderObject
     \<Rightarrow> (ExtendedShaderObjectTypeList \<Rightarrow> fault + Result \<times> ExtendedShaderObjectTypeList)
     \<Rightarrow> fault + Result \<times> ExtendedShaderObjectTypeList" where
  "deriveTypeArgs B bindingRange subObject subCollect =
     (if bindingType bindingRange = ExistentialValue then
        (case getSpecializedShaderObjectType B subObject of
           (r, specializedSubObjType) \<Rightarrow>
             if SLANG_FAILED r then Inr (r, emptyList)
             else Inr (SLANG_OK, add emptyList specializedSubObjType))
      else if bindingType bindingRange \<in> {ParameterBlock, ConstantBuffer, RawBuffer, MutableRawBuffer} then
        (if isSpecializable bindingRange
         then (case getSpecializedShaderObjectType B subObject of
                 (r, specializedSubObjType) \<Rightarrow>
                   if SLANG_FAILED r then Inr (r, emptyList)
                   else subCollect (add emptyList specializedSubObjType))
         else subCollect emptyList)
      else Inr (SLANG_OK, emptyList))"

text \<open>
  The inner loop over the elements of one sub-object range, from element
  \<open>subObjectIndexInRange\<close>. \<open>subs\<close> is \<^verbatim>\<open>m_objects\<close>, each bound sub-object paired with
  its own \<^verbatim>\<open>collectSpecializationArgs\<close>.
\<close>

function collectRange ::
  "'b Backend \<Rightarrow> BindingRangeInfo
     \<Rightarrow> ('b ShaderObject \<times> (ExtendedShaderObjectTypeList \<Rightarrow> fault + Result \<times> ExtendedShaderObjectTypeList)) option list
     \<Rightarrow> ExtendedShaderObjectTypeList option list \<Rightarrow> nat \<Rightarrow> nat \<Rightarrow> ExtendedShaderObjectTypeList
     \<Rightarrow> fault + Result \<times> ExtendedShaderObjectTypeList" where
  "collectRange B bindingRange subs userArgs oldArgsCount subObjectIndexInRange args =
     (if int subObjectIndexInRange < count_range bindingRange then
        (let objectIndex = subObjectIndex bindingRange + int subObjectIndexInRange in
         case at subs objectIndex of
           Inl f \<Rightarrow> Inl f
         | Inr None \<Rightarrow>
             collectRange B bindingRange subs userArgs oldArgsCount (Suc subObjectIndexInRange) args
         | Inr (Some (subObject, subCollect)) \<Rightarrow>
             if objectIndex < int (length userArgs) \<and> userArgs ! nat objectIndex \<noteq> None then
               (case addRange args (the (userArgs ! nat objectIndex)) of
                  Inl f \<Rightarrow> Inl f
                | Inr args' \<Rightarrow>
                    collectRange B bindingRange subs userArgs oldArgsCount (Suc subObjectIndexInRange) args')
             else
               (case deriveTypeArgs B bindingRange subObject subCollect of
                  Inl f \<Rightarrow> Inl f
                | Inr (r, typeArgs) \<Rightarrow>
                    if SLANG_FAILED r then Inr (r, args)
                    else
                      (let addedTypeArgCountForCurrentRange = getCount args - oldArgsCount in
                       if addedTypeArgCountForCurrentRange = 0 then
                         (case addRange args typeArgs of
                            Inl f \<Rightarrow> Inl f
                          | Inr args' \<Rightarrow>
                              collectRange B bindingRange subs userArgs oldArgsCount
                                (Suc subObjectIndexInRange) args')
                       else if SLANG_RHI_ASSERT (asserts B)
                                 (addedTypeArgCountForCurrentRange = getCount typeArgs)
                       then Inl AssertionFailure
                       else
                         (case replaceDiffering B oldArgsCount addedTypeArgCountForCurrentRange 0
                                 args typeArgs of
                            Inl f \<Rightarrow> Inl f
                          | Inr args' \<Rightarrow>
                              collectRange B bindingRange subs userArgs oldArgsCount
                                (Suc subObjectIndexInRange) args'))))
      else Inr (SLANG_OK, args))"
  by pat_completeness auto
termination
  by (relation "measure (\<lambda>(B, bindingRange, subs, userArgs, oldArgsCount, k, args).
                           nat (count_range bindingRange) - k)") auto

text \<open>The outer loop over the sub-object ranges of the layout.\<close>

fun collectRanges ::
  "'b Backend \<Rightarrow> ShaderObjectLayout
     \<Rightarrow> ('b ShaderObject \<times> (ExtendedShaderObjectTypeList \<Rightarrow> fault + Result \<times> ExtendedShaderObjectTypeList)) option list
     \<Rightarrow> ExtendedShaderObjectTypeList option list \<Rightarrow> SubObjectRangeInfo list \<Rightarrow> ExtendedShaderObjectTypeList
     \<Rightarrow> fault + Result \<times> ExtendedShaderObjectTypeList" where
  "collectRanges B layout subs userArgs [] args = Inr (SLANG_OK, args)"
| "collectRanges B layout subs userArgs (subObjectRange # rest) args =
     (case at (m_bindingRanges layout) (SubObjectRangeInfo.bindingRangeIndex subObjectRange) of
        Inl f \<Rightarrow> Inl f
      | Inr bindingRange \<Rightarrow>
          (case collectRange B bindingRange subs userArgs (getCount args) 0 args of
             Inl f \<Rightarrow> Inl f
           | Inr (r, args') \<Rightarrow>
               if SLANG_FAILED r then Inr (r, args')
               else collectRanges B layout subs userArgs rest args'))"

fun collectSpecializationArgs ::
  "'b Backend \<Rightarrow> 'b ShaderObject \<Rightarrow> ExtendedShaderObjectTypeList
     \<Rightarrow> fault + Result \<times> ExtendedShaderObjectTypeList" where
  "collectSpecializationArgs B (ShaderObject layout st dat objs userArgs sbArgs im) args =
     (if m_containerType layout \<noteq> ContainerNone
      then (case addRange args sbArgs of
              Inl f \<Rightarrow> Inl f
            | Inr args' \<Rightarrow> Inr (SLANG_OK, args'))
      else collectRanges B layout
             (map (map_option (\<lambda>subObject. (subObject, \<lambda>a. collectSpecializationArgs B subObject a))) objs)
             userArgs (m_subObjectRanges layout) args)"

subsection \<open>Binding sub-objects\<close>

text \<open>
  \<^verbatim>\<open>setObject\<close> is the \<^verbatim>\<open>switch\<close> on the state followed by the binding, which
  is one of the cases that the next definitions embed. The object to bind is given by
  value (a pointer that is not null).

  \<^verbatim>\<open>returnComPtr\<close> on a \<^verbatim>\<open>RefPtr\<close> calls \<^verbatim>\<open>addRef\<close> through the pointer
  and then stores it in the result, so it dereferences a null pointer.

  \<^verbatim>\<open>getObject\<close>. The result pointer is the second component (it stays null when
  the call fails before the slot is read); an empty slot is a null pointer passed to
  \<^verbatim>\<open>returnComPtr\<close>.
\<close>

definition returnComPtr :: "'a option \<Rightarrow> fault + 'a option" where
  "returnComPtr refPtr =
     (case refPtr of
        None \<Rightarrow> Inl NullDereference
      | Some p \<Rightarrow> Inr (Some p))"

definition getObject :: "'b ShaderObject \<Rightarrow> ShaderOffset \<Rightarrow> fault + Result \<times> 'b ShaderObject option" where
  "getObject obj offset =
     (if bindingRangeIndex offset < 0 then Inr (SLANG_E_INVALID_ARG, None)
      else if bindingRangeIndex offset \<ge> int (length (m_bindingRanges (m_layout obj)))
      then Inr (SLANG_E_INVALID_ARG, None)
      else (let bindingRange = m_bindingRanges (m_layout obj) ! nat (bindingRangeIndex offset) in
            case at (m_objects obj) (subObjectIndex bindingRange + bindingArrayIndex offset) of
              Inl f \<Rightarrow> Inl f
            | Inr refPtr \<Rightarrow>
                (case returnComPtr refPtr of
                   Inl f \<Rightarrow> Inl f
                 | Inr outObject \<Rightarrow> Inr (SLANG_OK, outObject))))"

text \<open>
  The block of \<^verbatim>\<open>setObject\<close> that makes room for an element of a container: when
  the index is at or beyond the size of \<^verbatim>\<open>m_objects\<close>, the vector is resized to the
  index plus one and the data to that size times the stride of the element type layout.
\<close>

definition growForElement :: "'b ShaderObject \<Rightarrow> nat \<Rightarrow> fault + 'b ShaderObject" where
  "growForElement obj i =
     (if i \<ge> length (m_objects obj) then
        (case m_elementTypeLayout (m_layout obj) of
           None \<Rightarrow> Inl NullDereference
         | Some elementTypeLayout \<Rightarrow>
             (let objects' = resize (i + 1) None (m_objects obj);
                  stride = getStride elementTypeLayout
              in Inr (with_data (resize (length objects' * stride) 0 (m_data obj))
                        (with_objects objects' obj))))
      else Inr obj)"

text \<open>
  Case 1 of \<^verbatim>\<open>setObject\<close> after the room is made: the element is stored in
  \<^verbatim>\<open>m_objects\<close>, the existential header is written when the element type is an
  interface, the sub-object's bytes are copied, and its specialization arguments are
  merged into those of the container.
\<close>

definition writeElement ::
  "'b Backend \<Rightarrow> 'b ShaderObject \<Rightarrow> ShaderOffset \<Rightarrow> 'b ShaderObject \<Rightarrow> fault + Result \<times> 'b ShaderObject" where
  "writeElement B obj1 offset subObject =
     (let obj2 = with_objects ((m_objects obj1)[nat (bindingArrayIndex offset) := Some subObject]) obj1 in
      case m_elementTypeLayout (m_layout obj1) of
        None \<Rightarrow> Inl NullDereference
      | Some elementTypeLayout \<Rightarrow>
          (case (if getKind elementTypeLayout = KindInterface then
                   (case getSpecializedShaderObjectType B subObject of
                      (r, concreteType) \<Rightarrow>
                        if SLANG_FAILED r then Inr (Inl (r, obj2))
                        else
                          (case setExistentialHeader B (getType elementTypeLayout)
                                  (slangType concreteType) offset obj2 of
                             (r', obj3) \<Rightarrow>
                               if SLANG_FAILED r' then Inr (Inl (r', obj3))
                               else Inr (Inr (obj3,
                                      offset\<lparr>uniformOffset := uniformOffset offset + 16\<rparr>,
                                      add emptyList concreteType))))
                 else
                   (case collectSpecializationArgs B subObject emptyList of
                      Inl f \<Rightarrow> Inl f
                    | Inr (r, specArgs) \<Rightarrow> Inr (Inr (obj2, offset, specArgs)))) of
             Inl f \<Rightarrow> Inl f
           | Inr (Inl early) \<Rightarrow> Inr early
           | Inr (Inr (obj3, payloadOffset, specArgs)) \<Rightarrow>
               (case setData B payloadOffset (m_data subObject) obj3 of
                  (r, obj4) \<Rightarrow>
                    if SLANG_FAILED r then Inr (r, obj4)
                    else
                      (case setSpecializationArgsForContainerElement B obj4 specArgs of
                         Inl f \<Rightarrow> Inl f
                       | Inr obj5 \<Rightarrow> Inr (SLANG_OK, obj5)))))"

text \<open>
  Case 1 of \<^verbatim>\<open>setObject\<close>: this object is a container, and \<open>subObject\<close> is written
  as its element \<open>bindingArrayIndex\<close>. The comparison with the size converts the index
  to an unsigned number, so a negative index is taken for a large one and the write to
  \<^verbatim>\<open>m_objects\<close> that follows is outside the vector.
\<close>

definition setObjectElement ::
  "'b Backend \<Rightarrow> 'b ShaderObject \<Rightarrow> ShaderOffset \<Rightarrow> 'b ShaderObject \<Rightarrow> fault + Result \<times> 'b ShaderObject" where
  "setObjectElement B obj offset subObject =
     (if bindingArrayIndex offset < 0 then Inl OutOfBounds
      else
        (case growForElement obj (nat (bindingArrayIndex offset)) of
           Inl f \<Rightarrow> Inl f
         | Inr obj1 \<Rightarrow> writeElement B obj1 offset subObject))"

text \<open>
  Cases 2 and 3 of \<^verbatim>\<open>setObject\<close>: \<open>subObject\<close> is set into a binding range of a
  plain object.
\<close>

definition setObjectField ::
  "'b Backend \<Rightarrow> 'b ShaderObject \<Rightarrow> ShaderOffset \<Rightarrow> 'b ShaderObject \<Rightarrow> fault + Result \<times> 'b ShaderObject" where
  "setObjectField B obj offset subObject =
     (if bindingRangeIndex offset < 0 then Inr (SLANG_E_INVALID_ARG, obj)
      else if bindingRangeIndex offset \<ge> int (length (m_bindingRanges (m_layout obj)))
      then Inr (SLANG_E_INVALID_ARG, obj)
      else
        (let bindingRange = m_bindingRanges (m_layout obj) ! nat (bindingRangeIndex offset);
             objectIndex = subObjectIndex bindingRange + bindingArrayIndex offset
         in if \<not> (0 \<le> objectIndex \<and> objectIndex < int (length (m_objects obj))) then Inl OutOfBounds
            else
              (let obj1 = with_objects ((m_objects obj)[nat objectIndex := Some subObject]) obj in
               if bindingType bindingRange = ExistentialValue then
                 (case m_elementTypeLayout (m_layout subObject) of
                    None \<Rightarrow> Inl NullDereference
                  | Some concreteTypeLayout \<Rightarrow>
                      (case m_elementTypeLayout (m_layout obj) of
                         None \<Rightarrow> Inl NullDereference
                       | Some elementTypeLayout \<Rightarrow>
                           (case getBindingRangeLeafTypeLayout B elementTypeLayout (bindingRangeIndex offset) of
                              None \<Rightarrow> Inl NullDereference
                            | Some existentialTypeLayout \<Rightarrow>
                                (case setExistentialHeader B (getType existentialTypeLayout)
                                        (getType concreteTypeLayout) offset obj1 of
                                   (r, obj2) \<Rightarrow>
                                     if SLANG_FAILED r then Inr (r, obj2)
                                     else if doesValueFitInExistentialPayload B concreteTypeLayout
                                               existentialTypeLayout
                                     then Inr (SLANG_OK,
                                            snd (setData B (offset\<lparr>uniformOffset := uniformOffset offset + 16\<rparr>)
                                                   (m_data subObject) obj2))
                                     else Inr (SLANG_E_NOT_IMPLEMENTED, obj2)))))
               else if bindingType bindingRange = MutableRawBuffer \<or> bindingType bindingRange = RawBuffer then
                 (case getBufferResource B subObject (bindingType bindingRange) of
                    None \<Rightarrow> Inr (SLANG_OK, obj1)
                  | Some buffer \<Rightarrow> Inr (SLANG_OK, snd (setBinding B offset buffer obj1)))
               else Inr (SLANG_OK, obj1))))"

definition setObject ::
  "'b Backend \<Rightarrow> 'b ShaderObject \<Rightarrow> ShaderOffset \<Rightarrow> 'b ShaderObject \<Rightarrow> fault + Result \<times> 'b ShaderObject" where
  "setObject B obj offset object =
     (let binding = (if m_containerType (m_layout obj) \<noteq> ContainerNone
                     then setObjectElement B obj offset object
                     else setObjectField B obj offset object)
      in case m_state obj of
           Initial \<Rightarrow> binding
         | Initialized \<Rightarrow> if \<not> isFinalized object then Inr (SLANG_FAIL, obj) else binding
         | Finalized \<Rightarrow> Inr (SLANG_FAIL, obj))"

subsection \<open>User-supplied specialization arguments\<close>

text \<open>
  \<^verbatim>\<open>getExtendedShaderTypeListFromSpecializationArgs\<close>; the array \<open>args\<close> with its
  \<open>count\<close> is a list. \<^verbatim>\<open>SLANG_RHI_ASSERT_FAILURE\<close> aborts when the build checks
  assertions.
\<close>

fun getExtendedShaderTypeListFromSpecializationArgs ::
  "'b Backend \<Rightarrow> ExtendedShaderObjectTypeList \<Rightarrow> SpecializationArg list
     \<Rightarrow> fault + Result \<times> ExtendedShaderObjectTypeList" where
  "getExtendedShaderTypeListFromSpecializationArgs B list [] = Inr (SLANG_OK, list)"
| "getExtendedShaderTypeListFromSpecializationArgs B list (arg # args) =
     (case kind arg of
        Type \<Rightarrow>
          getExtendedShaderTypeListFromSpecializationArgs B
            (add list \<lparr>slangType = type arg, componentID = getComponentId B (type arg)\<rparr>) args
      | Unknown \<Rightarrow> if asserts B then Inl AssertionFailure else Inr (SLANG_FAIL, list))"

text \<open>
  \<^verbatim>\<open>setSpecializationArgs\<close>. The comparison of the object index with the size of
  \<^verbatim>\<open>m_userProvidedSpecializationArgs\<close> is unsigned, so a negative index ends in a
  write outside the vector.
\<close>

definition setSpecializationArgs ::
  "'b Backend \<Rightarrow> 'b ShaderObject \<Rightarrow> ShaderOffset \<Rightarrow> SpecializationArg list \<Rightarrow> fault + Result \<times> 'b ShaderObject" where
  "setSpecializationArgs B obj offset args =
     (if isFinalized obj then Inr (SLANG_FAIL, obj)
      else if m_containerType (m_layout obj) \<noteq> ContainerNone then
        (case getExtendedShaderTypeListFromSpecializationArgs B emptyList args of
           Inl f \<Rightarrow> Inl f
         | Inr (r, argList) \<Rightarrow>
             if SLANG_FAILED r then Inr (r, obj)
             else (case setSpecializationArgsForContainerElement B obj argList of
                     Inl f \<Rightarrow> Inl f
                   | Inr obj' \<Rightarrow> Inr (SLANG_OK, obj')))
      else if bindingRangeIndex offset < 0 then Inr (SLANG_E_INVALID_ARG, obj)
      else if bindingRangeIndex offset \<ge> int (length (m_bindingRanges (m_layout obj)))
      then Inr (SLANG_E_INVALID_ARG, obj)
      else
        (let bindingRange = m_bindingRanges (m_layout obj) ! nat (bindingRangeIndex offset);
             objectIndex = subObjectIndex bindingRange + bindingArrayIndex offset
         in if objectIndex < 0 then Inl OutOfBounds
            else
              (let userArgs = (if objectIndex \<ge> int (length (m_userProvidedSpecializationArgs obj))
                               then resize (nat objectIndex + 1) None (m_userProvidedSpecializationArgs obj)
                               else m_userProvidedSpecializationArgs obj)
               in case getExtendedShaderTypeListFromSpecializationArgs B emptyList args of
                    Inl f \<Rightarrow> Inl f
                  | Inr (r, list) \<Rightarrow>
                      Inr (r, with_userArgs (userArgs[nat objectIndex := Some list]) obj))))"

subsection \<open>Finalization\<close>

text \<open>
  \<^verbatim>\<open>finalize\<close>, with the loop over \<^verbatim>\<open>m_objects\<close> as \<open>finalizeObjects\<close>: a
  sub-object that is bound and not finalized is finalized, and the first failure
  returns.
\<close>

fun finalize :: "'b Backend \<Rightarrow> 'b ShaderObject \<Rightarrow> fault + Result \<times> 'b ShaderObject"
  and finalizeObjects ::
    "'b Backend \<Rightarrow> 'b ShaderObject option list \<Rightarrow> fault + Result \<times> 'b ShaderObject option list" where
  "finalize B (ShaderObject layout st dat objs userArgs sbArgs im) =
     (if SLANG_RHI_ASSERT (asserts B) (st = Initialized) then Inl AssertionFailure
      else if st = Finalized then Inr (SLANG_FAIL, ShaderObject layout st dat objs userArgs sbArgs im)
      else (case finalizeObjects B objs of
              Inl f \<Rightarrow> Inl f
            | Inr (r, objs') \<Rightarrow>
                if SLANG_FAILED r then Inr (r, ShaderObject layout st dat objs' userArgs sbArgs im)
                else Inr (SLANG_OK, ShaderObject layout Finalized dat objs' userArgs sbArgs im)))"
| "finalizeObjects B [] = Inr (SLANG_OK, [])"
| "finalizeObjects B (None # rest) =
     (case finalizeObjects B rest of
        Inl f \<Rightarrow> Inl f
      | Inr (r, rest') \<Rightarrow> Inr (r, None # rest'))"
| "finalizeObjects B (Some object # rest) =
     (if isFinalized object = False then
        (case finalize B object of
           Inl f \<Rightarrow> Inl f
         | Inr (r, object') \<Rightarrow>
             if SLANG_FAILED r then Inr (r, Some object' # rest)
             else (case finalizeObjects B rest of
                     Inl f \<Rightarrow> Inl f
                   | Inr (r', rest') \<Rightarrow> Inr (r', Some object' # rest')))
      else (case finalizeObjects B rest of
              Inl f \<Rightarrow> Inl f
            | Inr (r, rest') \<Rightarrow> Inr (r, Some object # rest')))"

subsection \<open>Notions used to state the properties\<close>

text \<open>A list whose two vectors have the same length, as \<^verbatim>\<open>add\<close> and \<^verbatim>\<open>clear\<close> keep them.\<close>

definition wellFormedList :: "ExtendedShaderObjectTypeList \<Rightarrow> bool" where
  "wellFormedList l = (length (components l) = length (componentIDs l))"

text \<open>The component id of the dynamic type: what a differing position is replaced with.\<close>

definition dynamicID :: "'b Backend \<Rightarrow> ShaderComponentID" where
  "dynamicID B = getComponentId B (getDynamicType B)"

text \<open>
  The signatures of the elements of a container, merged one after the other:
  \<^verbatim>\<open>setSpecializationArgsForContainerElement\<close> called with each list in turn.
\<close>

fun setElementArgs ::
  "'b Backend \<Rightarrow> 'b ShaderObject \<Rightarrow> ExtendedShaderObjectTypeList list \<Rightarrow> fault + 'b ShaderObject" where
  "setElementArgs B obj [] = Inr obj"
| "setElementArgs B obj (l # ls) =
     (case setSpecializationArgsForContainerElement B obj l of
        Inl f \<Rightarrow> Inl f
      | Inr obj' \<Rightarrow> setElementArgs B obj' ls)"

text \<open>The whole tree of an object is finalized.\<close>

fun allFinalized :: "'b ShaderObject \<Rightarrow> bool" where
  "allFinalized (ShaderObject layout st dat objs userArgs sbArgs im) =
     (st = Finalized \<and>
      list_all (\<lambda>object. case object of None \<Rightarrow> True | Some s \<Rightarrow> allFinalized s) objs)"

text \<open>
  Every finalized sub-object, at any depth below the root, has its whole tree finalized:
  what holds of an object whose parts were finalized by \<^verbatim>\<open>finalize\<close> only.
\<close>

fun finalizedBottomUp :: "'b ShaderObject \<Rightarrow> bool" where
  "finalizedBottomUp (ShaderObject layout st dat objs userArgs sbArgs im) =
     list_all (\<lambda>object. case object of
                  None \<Rightarrow> True
                | Some s \<Rightarrow> finalizedBottomUp s \<and> (isFinalized s \<longrightarrow> allFinalized s)) objs"

text \<open>
  What a successful \<^verbatim>\<open>finalize\<close> of the parent does to one slot of \<^verbatim>\<open>m_objects\<close>:
  an empty slot and a finalized sub-object stay, any other sub-object is the result of
  its own successful \<^verbatim>\<open>finalize\<close>.
\<close>

definition finalizedSlot ::
  "'b Backend \<Rightarrow> 'b ShaderObject option \<Rightarrow> 'b ShaderObject option \<Rightarrow> bool" where
  "finalizedSlot B before after =
     (case before of
        None \<Rightarrow> after = None
      | Some s \<Rightarrow>
          if isFinalized s then after = Some s
          else (case finalize B s of
                  Inr (r, s') \<Rightarrow> r = SLANG_OK \<and> after = Some s'
                | Inl f \<Rightarrow> False))"

text \<open>The state check at the head of \<^verbatim>\<open>setObject\<close> lets the call through.\<close>

definition admits :: "'b ShaderObject \<Rightarrow> 'b ShaderObject \<Rightarrow> bool" where
  "admits obj object =
     (m_state obj = Initial \<or> (m_state obj = Initialized \<and> isFinalized object))"

text \<open>
  The test that \<^verbatim>\<open>collectSpecializationArgs\<close> makes of a sub-object index before it
  appends a user-supplied list: the index is below the size of
  \<^verbatim>\<open>m_userProvidedSpecializationArgs\<close> and the entry there is set.
\<close>

definition hasUserArgs :: "ExtendedShaderObjectTypeList option list \<Rightarrow> int \<Rightarrow> bool" where
  "hasUserArgs userArgs objectIndex =
     (objectIndex < int (length userArgs) \<and> userArgs ! nat objectIndex \<noteq> None)"

text \<open>
  The type arguments of a sub-object index are derived from the sub-object bound there:
  the slot holds a sub-object and the index has no user-supplied list.
\<close>

definition derivedAt :: "'a option list \<Rightarrow> ExtendedShaderObjectTypeList option list \<Rightarrow> int \<Rightarrow> bool" where
  "derivedAt objs userArgs objectIndex =
     (case at objs objectIndex of
        Inl f \<Rightarrow> False
      | Inr None \<Rightarrow> False
      | Inr (Some subObject) \<Rightarrow> \<not> hasUserArgs userArgs objectIndex)"

subsection \<open>An instance of the parameters\<close>

text \<open>
  One way of filling in the parameters, to run the model on concrete objects:
  \<open>setData\<close> overwrites the bytes of \<open>m_data\<close> from the uniform offset, as far as the
  data reaches, and refuses a finalized object; the existential header is sixteen bytes
  with the identity of the concrete type in the ninth; a value fits when its stride and
  the header are within the stride of the existential field; the specialized type of an
  object is the type and component id of its layout.
\<close>

definition exampleSetData :: "ShaderOffset \<Rightarrow> 8 word list \<Rightarrow> unit ShaderObject \<Rightarrow> Result \<times> unit ShaderObject" where
  "exampleSetData offset bytes obj =
     (if isFinalized obj then (SLANG_FAIL, obj)
      else (let off = nat (uniformOffset offset); d = m_data obj
            in (SLANG_OK,
                with_data (take off d @ take (length d - off) bytes @ drop (off + length bytes) d) obj)))"

definition exampleBackend :: "unit Backend" where
  "exampleBackend =
     \<lparr>asserts = True,
      getDynamicType = Some 0,
      getComponentId = (\<lambda>t. case t of None \<Rightarrow> kInvalidComponentID | Some n \<Rightarrow> of_nat n),
      setData = exampleSetData,
      setBinding = (\<lambda>offset buffer obj. (SLANG_OK, obj)),
      setExistentialHeader =
        (\<lambda>existentialType concreteType offset obj.
           exampleSetData offset
             (replicate 8 0 @ [case concreteType of None \<Rightarrow> 0 | Some n \<Rightarrow> of_nat n] @ replicate 7 0) obj),
      doesValueFitInExistentialPayload = (\<lambda>concrete existential. getStride concrete + 16 \<le> getStride existential),
      getSpecializedShaderObjectType =
        (\<lambda>obj. (SLANG_OK,
                 \<lparr>slangType = (case m_elementTypeLayout (m_layout obj) of
                                  None \<Rightarrow> None
                                | Some elementTypeLayout \<Rightarrow> getType elementTypeLayout),
                  componentID = m_componentID (m_layout obj)\<rparr>)),
      getBufferResource = (\<lambda>obj b. None),
      getBindingRangeLeafTypeLayout =
        (\<lambda>elementTypeLayout i. Some (TypeLayoutReflection (Some 9) KindInterface OtherShape None 32))\<rparr>"

text \<open>A list of type arguments with the given component ids (type \<open>n\<close> has id \<open>n\<close>).\<close>

definition exampleArgs :: "nat list \<Rightarrow> ExtendedShaderObjectTypeList" where
  "exampleArgs ts =
     \<lparr>componentIDs = map of_nat ts, components = map (\<lambda>t. fromType (Some t)) ts\<rparr>"

text \<open>
  A plain object of the struct type \<open>t\<close> (of stride \<open>4 * t\<close>) in the given state with the
  given bytes, and an empty \<^verbatim>\<open>StructuredBuffer\<close> container of elements of the struct
  type 1.
\<close>

definition exampleStruct :: "nat \<Rightarrow> State \<Rightarrow> 8 word list \<Rightarrow> unit ShaderObject" where
  "exampleStruct t st bytes =
     ShaderObject
       \<lparr>m_elementTypeLayout = Some (TypeLayoutReflection (Some t) KindStruct OtherShape None (4 * t)),
        m_componentID = of_nat t, m_containerType = ContainerNone,
        m_bindingRanges = [], m_subObjectRanges = []\<rparr>
       st bytes [] [] emptyList ()"

definition exampleContainer :: "unit ShaderObject" where
  "exampleContainer =
     ShaderObject
       \<lparr>m_elementTypeLayout = Some (TypeLayoutReflection (Some 1) KindStruct OtherShape None 4),
        m_componentID = 1, m_containerType = ContainerStructuredBuffer,
        m_bindingRanges = [], m_subObjectRanges = []\<rparr>
       Initial [] [] [] emptyList ()"

text \<open>
  A plain object with two binding ranges, a parameter block (slot 0) and an existential
  value (slot 1), both of them sub-object ranges; nothing is bound yet.
\<close>

definition exampleParent :: "State \<Rightarrow> unit ShaderObject" where
  "exampleParent st =
     ShaderObject
       \<lparr>m_elementTypeLayout = Some (TypeLayoutReflection (Some 3) KindStruct OtherShape None 48),
        m_componentID = 3, m_containerType = ContainerNone,
        m_bindingRanges =
          [\<lparr>bindingType = ParameterBlock, count_range = 1, subObjectIndex = 0, isSpecializable = False\<rparr>,
           \<lparr>bindingType = ExistentialValue, count_range = 1, subObjectIndex = 1, isSpecializable = False\<rparr>],
        m_subObjectRanges =
          [\<lparr>SubObjectRangeInfo.bindingRangeIndex = 0\<rparr>, \<lparr>SubObjectRangeInfo.bindingRangeIndex = 1\<rparr>]\<rparr>
       st (replicate 48 0) [None, None] [] emptyList ()"

text \<open>
  The parent with the user-supplied argument list \<open>[7]\<close> for slot 1, and \<open>bound\<close> in
  that slot.
\<close>

definition exampleOverridden :: "unit ShaderObject option \<Rightarrow> unit ShaderObject" where
  "exampleOverridden bound =
     with_userArgs [None, Some (exampleArgs [7])] (with_objects [None, bound] (exampleParent Initial))"

text \<open>
  A plain object with two sub-object ranges of existential values, one of two elements
  (slots 0 and 1) and one of a single element (slot 2), with the given sub-objects and
  user-supplied argument lists.
\<close>

definition exampleArray ::
  "unit ShaderObject option list \<Rightarrow> ExtendedShaderObjectTypeList option list \<Rightarrow> unit ShaderObject" where
  "exampleArray objs userArgs =
     ShaderObject
       \<lparr>m_elementTypeLayout = Some (TypeLayoutReflection (Some 4) KindStruct OtherShape None 96),
        m_componentID = 4, m_containerType = ContainerNone,
        m_bindingRanges =
          [\<lparr>bindingType = ExistentialValue, count_range = 2, subObjectIndex = 0, isSpecializable = False\<rparr>,
           \<lparr>bindingType = ExistentialValue, count_range = 1, subObjectIndex = 2, isSpecializable = False\<rparr>],
        m_subObjectRanges =
          [\<lparr>SubObjectRangeInfo.bindingRangeIndex = 0\<rparr>, \<lparr>SubObjectRangeInfo.bindingRangeIndex = 1\<rparr>]\<rparr>
       Initial (replicate 96 0) objs userArgs emptyList ()"

section \<open>Properties\<close>

declare argsEqualFrom.simps [simp del]
declare replaceDiffering.simps [simp del]
declare addRangeFrom.simps [simp del]
declare collectRange.simps [simp del]

subsection \<open>Selectors of updated and example objects\<close>

lemma with_state_sel [simp]:
  "m_layout (with_state st obj) = m_layout obj"
  "m_state (with_state st obj) = st"
  "m_data (with_state st obj) = m_data obj"
  "m_objects (with_state st obj) = m_objects obj"
  "m_userProvidedSpecializationArgs (with_state st obj) = m_userProvidedSpecializationArgs obj"
  "m_structuredBufferSpecializationArgs (with_state st obj) = m_structuredBufferSpecializationArgs obj"
  by (simp_all add: with_state_def)

lemma with_objects_sel [simp]:
  "m_layout (with_objects os obj) = m_layout obj"
  "m_state (with_objects os obj) = m_state obj"
  "m_data (with_objects os obj) = m_data obj"
  "m_objects (with_objects os obj) = os"
  "m_userProvidedSpecializationArgs (with_objects os obj) = m_userProvidedSpecializationArgs obj"
  "m_structuredBufferSpecializationArgs (with_objects os obj) = m_structuredBufferSpecializationArgs obj"
  by (simp_all add: with_objects_def)

lemma with_data_sel [simp]:
  "m_layout (with_data d obj) = m_layout obj"
  "m_state (with_data d obj) = m_state obj"
  "m_data (with_data d obj) = d"
  "m_objects (with_data d obj) = m_objects obj"
  "m_userProvidedSpecializationArgs (with_data d obj) = m_userProvidedSpecializationArgs obj"
  "m_structuredBufferSpecializationArgs (with_data d obj) = m_structuredBufferSpecializationArgs obj"
  by (simp_all add: with_data_def)

lemma exampleParent_sel [simp]:
  "m_state (exampleParent st) = st"
  "m_objects (exampleParent st) = [None, None]"
  "m_containerType (m_layout (exampleParent st)) = ContainerNone"
  "m_bindingRanges (m_layout (exampleParent st)) =
     [\<lparr>bindingType = ParameterBlock, count_range = 1, subObjectIndex = 0, isSpecializable = False\<rparr>,
      \<lparr>bindingType = ExistentialValue, count_range = 1, subObjectIndex = 1, isSpecializable = False\<rparr>]"
  "m_elementTypeLayout (m_layout (exampleParent st)) =
     Some (TypeLayoutReflection (Some 3) KindStruct OtherShape None 48)"
  "m_data (exampleParent st) = replicate 48 0"
  "m_userProvidedSpecializationArgs (exampleParent st) = []"
  by (simp_all add: exampleParent_def)

lemma exampleStruct_sel [simp]:
  "m_state (exampleStruct t st bytes) = st"
  "m_data (exampleStruct t st bytes) = bytes"
  "m_objects (exampleStruct t st bytes) = []"
  "m_containerType (m_layout (exampleStruct t st bytes)) = ContainerNone"
  "m_elementTypeLayout (m_layout (exampleStruct t st bytes)) =
     Some (TypeLayoutReflection (Some t) KindStruct OtherShape None (4 * t))"
  "m_componentID (m_layout (exampleStruct t st bytes)) = of_nat t"
  "m_subObjectRanges (m_layout (exampleStruct t st bytes)) = []"
  by (simp_all add: exampleStruct_def)

lemma exampleBackend_sel [simp]:
  "asserts exampleBackend = True"
  "getDynamicType exampleBackend = Some 0"
  "getComponentId exampleBackend (Some n) = of_nat n"
  "setData exampleBackend = exampleSetData"
  "setExistentialHeader exampleBackend existentialType concreteType offset obj =
     exampleSetData offset
       (replicate 8 0 @ [case concreteType of None \<Rightarrow> 0 | Some n \<Rightarrow> of_nat n] @ replicate 7 0) obj"
  "doesValueFitInExistentialPayload exampleBackend concrete existential =
     (getStride concrete + 16 \<le> getStride existential)"
  "getSpecializedShaderObjectType exampleBackend obj =
     (SLANG_OK,
      \<lparr>slangType = (case m_elementTypeLayout (m_layout obj) of
                       None \<Rightarrow> None
                     | Some elementTypeLayout \<Rightarrow> getType elementTypeLayout),
       componentID = m_componentID (m_layout obj)\<rparr>)"
  "getBindingRangeLeafTypeLayout exampleBackend elementTypeLayout i =
     Some (TypeLayoutReflection (Some 9) KindInterface OtherShape None 32)"
  by (simp_all add: exampleBackend_def)

lemma exampleContainer_sel [simp]:
  "m_state exampleContainer = Initial"
  "m_data exampleContainer = []"
  "m_objects exampleContainer = []"
  "m_containerType (m_layout exampleContainer) = ContainerStructuredBuffer"
  "m_elementTypeLayout (m_layout exampleContainer) =
     Some (TypeLayoutReflection (Some 1) KindStruct OtherShape None 4)"
  "m_structuredBufferSpecializationArgs exampleContainer = emptyList"
  by (simp_all add: exampleContainer_def)


subsection \<open>Equality of component keys\<close>

lemma argsEqualFrom_iff:
  "length xs = length ys \<Longrightarrow>
   argsEqualFrom i xs ys \<longleftrightarrow> (\<forall>j. i \<le> j \<and> j < length ys \<longrightarrow> xs ! j = ys ! j)"
proof (induction i xs ys rule: argsEqualFrom.induct)
  case (1 i xs ys)
  show ?case
  proof (cases "i < length ys")
    case False
    then show ?thesis by (auto simp add: argsEqualFrom.simps [of i xs ys])
  next
    case inside: True
    show ?thesis
    proof (cases "xs ! i = ys ! i")
      case False
      with inside show ?thesis
        by (auto simp add: argsEqualFrom.simps [of i xs ys])
    next
      case True
      with inside "1.IH" "1.prems"
      have "argsEqualFrom i xs ys \<longleftrightarrow> (\<forall>j. Suc i \<le> j \<and> j < length ys \<longrightarrow> xs ! j = ys ! j)"
        by (simp add: argsEqualFrom.simps [of i xs ys])
      also have "\<dots> \<longleftrightarrow> (\<forall>j. i \<le> j \<and> j < length ys \<longrightarrow> xs ! j = ys ! j)"
        using True by (metis Suc_leI le_neq_implies_less Suc_leD)
      finally show ?thesis .
    qed
  qed
qed

lemma argsEqualFrom_0: "length xs = length ys \<Longrightarrow> argsEqualFrom 0 xs ys \<longleftrightarrow> xs = ys"
  by (auto simp add: argsEqualFrom_iff list_eq_iff_nth_eq)

text \<open>
  Claim C6. Two component keys compare equal exactly when their type names are the same
  string and their specialization arguments are the same sequence of component ids (the
  stored hash takes no part); so a key whose arguments are a rearrangement of another
  key's, in a different order, is not equal to it.
\<close>

theorem ComponentKey_eq_iff:
  "(ComponentKey_eq a b \<longleftrightarrow>
      typeName a = typeName b \<and>
      ComponentKey.specializationArgs a = ComponentKey.specializationArgs b) \<and>
   (mset (ComponentKey.specializationArgs a) = mset (ComponentKey.specializationArgs b) \<and>
    ComponentKey.specializationArgs a \<noteq> ComponentKey.specializationArgs b
      \<longrightarrow> \<not> ComponentKey_eq a b)"
  by (auto simp add: ComponentKey_eq_def argsEqualFrom_0)

theorem ComponentKey_eq_iff_witness:
  "ComponentKey_eq \<lparr>typeName = ''Bar'', specializationArgs = [1, 2], hash = 5\<rparr>
                   \<lparr>typeName = ''Bar'', specializationArgs = [1, 2], hash = 9\<rparr> \<and>
   \<not> ComponentKey_eq \<lparr>typeName = ''Bar'', specializationArgs = [1, 2], hash = 5\<rparr>
                     \<lparr>typeName = ''Bar'', specializationArgs = [2, 1], hash = 5\<rparr>"
  using ComponentKey_eq_iff [of "\<lparr>typeName = ''Bar'', specializationArgs = [1, 2], hash = 5\<rparr>"
                                "\<lparr>typeName = ''Bar'', specializationArgs = [1, 2], hash = 9\<rparr>"]
        ComponentKey_eq_iff [of "\<lparr>typeName = ''Bar'', specializationArgs = [1, 2], hash = 5\<rparr>"
                                "\<lparr>typeName = ''Bar'', specializationArgs = [2, 1], hash = 5\<rparr>"]
  by simp

subsection \<open>Freeing the shader cache\<close>

text \<open>
  Claim C9. \<^verbatim>\<open>ShaderCache::free\<close> leaves both maps empty, and after it
  \<^verbatim>\<open>getSpecializedPipeline\<close> returns null for every pipeline key, whatever the cache
  held before.
\<close>

theorem free_empties_cache:
  "getSpecializedPipeline (free c) key = None \<and>
   specializedPipelines (free c) = [] \<and> componentIds (free c) = []"
  by (simp add: getSpecializedPipeline_def free_def)

theorem free_empties_cache_witness:
  "getSpecializedPipeline
     \<lparr>componentIds = [], specializedPipelines = [(\<lparr>pipeline = 4, specializationArgs = [7], hash = 1\<rparr>, 8)]\<rparr>
     \<lparr>pipeline = 4, specializationArgs = [7], hash = 1\<rparr> = Some 8 \<and>
   getSpecializedPipeline
     (free \<lparr>componentIds = [], specializedPipelines = [(\<lparr>pipeline = 4, specializationArgs = [7], hash = 1\<rparr>, 8)]\<rparr>)
     \<lparr>pipeline = 4, specializationArgs = [7], hash = 1\<rparr> = None"
  using free_empties_cache
    [of "\<lparr>componentIds = [], specializedPipelines = [(\<lparr>pipeline = 4, specializationArgs = [7], hash = 1\<rparr>, 8)]\<rparr>"
        "\<lparr>pipeline = 4, specializationArgs = [7], hash = 1\<rparr>"]
  by (simp add: getSpecializedPipeline_def PipelineKey_eq_def argsEqualFrom.simps)

subsection \<open>Unwrapping parameter groups\<close>

text \<open>
  On a layout with a type, one round of the loop classifies as the specification says,
  unless the layout is a resource that is not a structured buffer; and the loop returns
  on every layout in which no such resource occurs.
\<close>

lemma unwrapLoop_classifies:
  assumes "getType t \<noteq> None"
    and "\<not> (getKind t = KindResource \<and> getResourceShape t \<noteq> SLANG_STRUCTURED_BUFFER)"
  shows "unwrapParameterGroups checked (Some t) =
           (if getKind t = KindArray then Some (Inr (getElementTypeLayout t, ContainerArray))
            else if getKind t = KindResource
            then Some (Inr (getElementTypeLayout t, ContainerStructuredBuffer))
            else if getKind t = KindConstantBuffer \<or> getKind t = KindParameterBlock
            then unwrapParameterGroups checked (getElementTypeLayout t)
            else Some (Inr (Some t, ContainerNone)))"
proof -
  from assms(2)
  have shape: "getKind t = KindResource \<Longrightarrow> getResourceShape t = SLANG_STRUCTURED_BUFFER"
    by blast
  have "unwrapLoop checked (Some t) ContainerNone =
           (if getKind t = KindArray then Some (Inr (getElementTypeLayout t, ContainerArray))
            else if getKind t = KindResource
            then Some (Inr (getElementTypeLayout t, ContainerStructuredBuffer))
            else if getKind t = KindConstantBuffer \<or> getKind t = KindParameterBlock
            then unwrapLoop checked (getElementTypeLayout t) ContainerNone
            else Some (Inr (Some t, ContainerNone)))"
    by (subst unwrapLoop.simps) (auto simp add: assms(1) shape SLANG_RHI_ASSERT_def)
  then show ?thesis by (simp add: unwrapParameterGroups_def)
qed

lemma element_smaller: "getElementTypeLayout t = Some e \<Longrightarrow> size e < size t"
  by (cases t) simp

lemma noPlainResource_element:
  "noPlainResource t \<Longrightarrow> getElementTypeLayout t = Some e \<Longrightarrow> noPlainResource e"
  by (cases t) simp

lemma noPlainResource_here:
  "noPlainResource t \<Longrightarrow> getKind t = KindResource \<Longrightarrow> getResourceShape t = SLANG_STRUCTURED_BUFFER"
  by (cases t) auto

lemma unwrapLoop_null: "unwrapLoop c None out = Some (Inl NullDereference)"
  by (simp add: unwrapLoop.simps)

lemma unwrapLoop_returns:
  "noPlainResource entered \<Longrightarrow> \<exists>r. unwrapLoop c (Some entered) out = Some r"
proof (induction entered rule: measure_induct_rule [where f = size])
  case (less entered)
  define current where
    "current = (if getType entered = None
                then (case getElementTypeLayout entered of
                        Some elementTypeLayout \<Rightarrow> elementTypeLayout
                      | None \<Rightarrow> entered)
                else entered)"
  have small: "size current \<le> size entered"
    by (auto simp add: current_def split: option.splits dest: element_smaller)
  have clean: "noPlainResource current"
    using less.prems by (auto simp add: current_def split: option.splits dest: noPlainResource_element)
  have unfold: "unwrapLoop c (Some entered) out =
     (if getKind current = KindArray then
        (if SLANG_RHI_ASSERT c (out = ContainerNone)
         then Some (Inl AssertionFailure)
         else Some (Inr (getElementTypeLayout current, ContainerArray)))
      else if getKind current = KindResource then
        (if getResourceShape current \<noteq> SLANG_STRUCTURED_BUFFER
         then unwrapLoop c (Some current) out
         else if SLANG_RHI_ASSERT c (out = ContainerNone)
         then Some (Inl AssertionFailure)
         else Some (Inr (getElementTypeLayout current, ContainerStructuredBuffer)))
      else if getKind current = KindConstantBuffer \<or> getKind current = KindParameterBlock then
        unwrapLoop c (getElementTypeLayout current) out
      else Some (Inr (Some current, out)))"
    by (subst unwrapLoop.simps) (simp add: current_def Let_def)
  show ?case
  proof (cases "getKind current = KindConstantBuffer \<or> getKind current = KindParameterBlock")
    case True
    show ?thesis
    proof (cases "getElementTypeLayout current")
      case None
      with True unfold show ?thesis by (auto simp add: unwrapLoop_null)
    next
      case (Some e)
      from element_smaller [OF Some] small have "size e < size entered" by simp
      from less.IH [OF this noPlainResource_element [OF clean Some]]
      obtain r where "unwrapLoop c (Some e) out = Some r" by blast
      with True Some unfold show ?thesis by auto
    qed
  next
    case False
    with unfold noPlainResource_here [OF clean] show ?thesis by auto
  qed
qed

text \<open>
  Claim C2. The claim is that \<^verbatim>\<open>_unwrapParameterGroups\<close> returns for every type
  layout. On the layout of a resource that is not a structured buffer (a texture, here)
  the \<^verbatim>\<open>break\<close> leaves the \<^verbatim>\<open>switch\<close> and the loop goes round with the same
  layout: the function never returns, with and without assertions.
\<close>

theorem unwrap_diverges:
  "unwrapParameterGroups checked (Some (TypeLayoutReflection (Some 1) KindResource SLANG_TEXTURE_2D None 0)) = None"
proof -
  let ?tl = "TypeLayoutReflection (Some 1) KindResource SLANG_TEXTURE_2D None 0"
  have never: "t \<noteq> Some ?tl" if run: "unwrapLoop c t out = Some y" for c t out y
    apply (rule unwrapLoop.raw_induct [where P = "\<lambda>c t out y. t \<noteq> Some ?tl", OF _ run])
    subgoal premises prems for f c' t' out' y'
    proof
      assume "t' = Some ?tl"
      with prems(2) have "f c' (Some ?tl) out' = Some y'" by simp
      with prems(1) show False by blast
    qed
    done
  show ?thesis
  proof (cases "unwrapLoop checked (Some ?tl) ContainerNone")
    case None
    then show ?thesis by (simp add: unwrapParameterGroups_def)
  next
    case (Some y)
    with never show ?thesis by blast
  qed
qed

subsection \<open>The specialization signature of a container\<close>

lemma index_in_range:
  "wellFormedList l \<Longrightarrow> i < getCount l \<Longrightarrow>
   index l (int i) = Inr \<lparr>slangType = type (components l ! i), componentID = componentIDs l ! i\<rparr>"
  by (simp add: index_def at_def wellFormedList_def getCount_def)

lemma replaceDiffering_spec:
  assumes "wellFormedList args" "wellFormedList typeArgs"
    and "oldArgsCount + n \<le> getCount args" "n \<le> getCount typeArgs"
  shows "\<exists>args'. replaceDiffering B oldArgsCount n i args typeArgs = Inr args' \<and>
           wellFormedList args' \<and> getCount args' = getCount args \<and>
           (\<forall>j < getCount args.
              componentIDs args' ! j =
                (if oldArgsCount + i \<le> j \<and> j < oldArgsCount + n \<and>
                    componentIDs args ! j \<noteq> componentIDs typeArgs ! (j - oldArgsCount)
                 then dynamicID B else componentIDs args ! j))"
  using assms
proof (induction B oldArgsCount n i args typeArgs rule: replaceDiffering.induct)
  case (1 B oldArgsCount n i args typeArgs)
  show ?case
  proof (cases "i < n")
    case False
    with "1.prems" show ?thesis by (auto simp add: replaceDiffering.simps [of B oldArgsCount n i])
  next
    case inside: True
    have ia: "index args (int (i + oldArgsCount)) =
              Inr \<lparr>slangType = type (components args ! (i + oldArgsCount)),
                   componentID = componentIDs args ! (i + oldArgsCount)\<rparr>"
      using inside "1.prems" by (intro index_in_range) auto
    have ib: "index typeArgs (int i) =
              Inr \<lparr>slangType = type (components typeArgs ! i), componentID = componentIDs typeArgs ! i\<rparr>"
      using inside "1.prems" by (intro index_in_range) auto
    show ?thesis
    proof (cases "componentIDs args ! (i + oldArgsCount) = componentIDs typeArgs ! i")
      case True
      have step: "replaceDiffering B oldArgsCount n i args typeArgs =
                  replaceDiffering B oldArgsCount n (Suc i) args typeArgs"
        using inside ia ib True by (simp add: replaceDiffering.simps [of B oldArgsCount n i])
      from "1.IH"(2) [OF inside ia ib _ "1.prems"] True
      obtain args' where r: "replaceDiffering B oldArgsCount n (Suc i) args typeArgs = Inr args'"
        and w: "wellFormedList args'" and c: "getCount args' = getCount args"
        and ids: "\<forall>j < getCount args.
              componentIDs args' ! j =
                (if oldArgsCount + Suc i \<le> j \<and> j < oldArgsCount + n \<and>
                    componentIDs args ! j \<noteq> componentIDs typeArgs ! (j - oldArgsCount)
                 then dynamicID B else componentIDs args ! j)"
        by auto
      have "\<forall>j < getCount args.
              componentIDs args' ! j =
                (if oldArgsCount + i \<le> j \<and> j < oldArgsCount + n \<and>
                    componentIDs args ! j \<noteq> componentIDs typeArgs ! (j - oldArgsCount)
                 then dynamicID B else componentIDs args ! j)"
      proof (intro allI impI)
        fix j assume j: "j < getCount args"
        show "componentIDs args' ! j =
                (if oldArgsCount + i \<le> j \<and> j < oldArgsCount + n \<and>
                    componentIDs args ! j \<noteq> componentIDs typeArgs ! (j - oldArgsCount)
                 then dynamicID B else componentIDs args ! j)"
        proof (cases "j = oldArgsCount + i")
          case True
          with ids j \<open>componentIDs args ! (i + oldArgsCount) = componentIDs typeArgs ! i\<close>
          show ?thesis by (simp add: add.commute)
        next
          case False
          with ids j show ?thesis by auto
        qed
      qed
      with step r w c show ?thesis by simp
    next
      case False
      let ?args2 = "args\<lparr>componentIDs := (componentIDs args)[i + oldArgsCount := getComponentId B (getDynamicType B)],
                         components := (components args)[i + oldArgsCount := fromType (getDynamicType B)]\<rparr>"
      have step: "replaceDiffering B oldArgsCount n i args typeArgs =
                  replaceDiffering B oldArgsCount n (Suc i) ?args2 typeArgs"
        using inside ia ib False by (simp add: replaceDiffering.simps [of B oldArgsCount n i] Let_def)
      have w2: "wellFormedList ?args2" and c2: "getCount ?args2 = getCount args"
        using "1.prems" by (simp_all add: wellFormedList_def getCount_def)
      from "1.IH"(1) [OF inside ia ib _ refl w2 "1.prems"(2)] False c2 "1.prems"
      obtain args' where r: "replaceDiffering B oldArgsCount n (Suc i) ?args2 typeArgs = Inr args'"
        and w: "wellFormedList args'" and c: "getCount args' = getCount args"
        and ids: "\<forall>j < getCount args.
              componentIDs args' ! j =
                (if oldArgsCount + Suc i \<le> j \<and> j < oldArgsCount + n \<and>
                    componentIDs ?args2 ! j \<noteq> componentIDs typeArgs ! (j - oldArgsCount)
                 then dynamicID B else componentIDs ?args2 ! j)"
        by auto
      have "\<forall>j < getCount args.
              componentIDs args' ! j =
                (if oldArgsCount + i \<le> j \<and> j < oldArgsCount + n \<and>
                    componentIDs args ! j \<noteq> componentIDs typeArgs ! (j - oldArgsCount)
                 then dynamicID B else componentIDs args ! j)"
      proof (intro allI impI)
        fix j assume j: "j < getCount args"
        show "componentIDs args' ! j =
                (if oldArgsCount + i \<le> j \<and> j < oldArgsCount + n \<and>
                    componentIDs args ! j \<noteq> componentIDs typeArgs ! (j - oldArgsCount)
                 then dynamicID B else componentIDs args ! j)"
        proof (cases "j = oldArgsCount + i")
          case True
          with ids j inside False show ?thesis
            by (simp add: add.commute dynamicID_def getCount_def)
        next
          case False
          with ids j show ?thesis by (auto simp add: getCount_def)
        qed
      qed
      with step r w c show ?thesis by simp
    qed
  qed
qed

lemma setElement_first:
  "getCount (m_structuredBufferSpecializationArgs obj) = 0 \<Longrightarrow>
   setSpecializationArgsForContainerElement B obj l = Inr (with_structuredBufferArgs l obj)"
  by (simp add: setSpecializationArgsForContainerElement_def)

lemma sb_with [simp]: "m_structuredBufferSpecializationArgs (with_structuredBufferArgs l obj) = l"
  by (simp add: with_structuredBufferArgs_def)

lemma setElement_merge:
  assumes "wellFormedList (m_structuredBufferSpecializationArgs obj)" "wellFormedList l"
    and "getCount (m_structuredBufferSpecializationArgs obj) = getCount l" "0 < getCount l"
  shows "\<exists>merged. setSpecializationArgsForContainerElement B obj l = Inr (with_structuredBufferArgs merged obj) \<and>
           wellFormedList merged \<and> getCount merged = getCount l \<and>
           (\<forall>j < getCount l.
              componentIDs merged ! j =
                (if componentIDs (m_structuredBufferSpecializationArgs obj) ! j \<noteq> componentIDs l ! j
                 then dynamicID B else componentIDs (m_structuredBufferSpecializationArgs obj) ! j))"
proof -
  let ?s = "m_structuredBufferSpecializationArgs obj"
  from replaceDiffering_spec [of ?s l 0 "getCount ?s" B 0] assms
  obtain merged where r: "replaceDiffering B 0 (getCount ?s) 0 ?s l = Inr merged"
    and w: "wellFormedList merged" and c: "getCount merged = getCount ?s"
    and ids: "\<forall>j < getCount ?s. componentIDs merged ! j =
                (if componentIDs ?s ! j \<noteq> componentIDs l ! j
                 then dynamicID B else componentIDs ?s ! j)"
    by auto
  from assms r have "setSpecializationArgsForContainerElement B obj l = Inr (with_structuredBufferArgs merged obj)"
    by (simp add: setSpecializationArgsForContainerElement_def SLANG_RHI_ASSERT_def)
  with w c ids assms(3) show ?thesis by auto
qed

lemma setElementArgs_invariant:
  assumes "\<forall>l \<in> set ls. wellFormedList l \<and> getCount l = n"
    and "wellFormedList (m_structuredBufferSpecializationArgs obj)"
    and "getCount (m_structuredBufferSpecializationArgs obj) = n"
    and "\<forall>j < n. componentIDs (m_structuredBufferSpecializationArgs obj) ! j =
           (if \<forall>l \<in> set seen. componentIDs l ! j = c ! j then c ! j else dynamicID B)"
  shows "\<exists>obj'. setElementArgs B obj ls = Inr obj' \<and>
           wellFormedList (m_structuredBufferSpecializationArgs obj') \<and>
           getCount (m_structuredBufferSpecializationArgs obj') = n \<and>
           (\<forall>j < n. componentIDs (m_structuredBufferSpecializationArgs obj') ! j =
              (if \<forall>l \<in> set (seen @ ls). componentIDs l ! j = c ! j then c ! j else dynamicID B))"
  using assms
proof (induction ls arbitrary: obj seen)
  case Nil
  then show ?case by simp
next
  case (Cons l ls)
  have wl: "wellFormedList l" and cl: "getCount l = n" using Cons.prems(1) by auto
  show ?case
  proof (cases "n = 0")
    case True
    have first: "setSpecializationArgsForContainerElement B obj l = Inr (with_structuredBufferArgs l obj)"
      using True Cons.prems(3) by (simp add: setElement_first)
    from Cons.IH [of "with_structuredBufferArgs l obj" "seen @ [l]"] Cons.prems wl cl True
    show ?thesis using first by simp
  next
    case False
    with setElement_merge [of obj l B] Cons.prems wl cl
    obtain merged where m: "setSpecializationArgsForContainerElement B obj l = Inr (with_structuredBufferArgs merged obj)"
      and w: "wellFormedList merged" and c: "getCount merged = n"
      and ids: "\<forall>j < n. componentIDs merged ! j =
                (if componentIDs (m_structuredBufferSpecializationArgs obj) ! j \<noteq> componentIDs l ! j
                 then dynamicID B else componentIDs (m_structuredBufferSpecializationArgs obj) ! j)"
      by auto
    have inv: "\<forall>j < n. componentIDs merged ! j =
           (if \<forall>l' \<in> set (seen @ [l]). componentIDs l' ! j = c ! j then c ! j else dynamicID B)"
    proof (intro allI impI)
      fix j assume j: "j < n"
      from Cons.prems(4) j
      have old: "componentIDs (m_structuredBufferSpecializationArgs obj) ! j =
           (if \<forall>l \<in> set seen. componentIDs l ! j = c ! j then c ! j else dynamicID B)" by simp
      from ids j have new: "componentIDs merged ! j =
                (if componentIDs (m_structuredBufferSpecializationArgs obj) ! j \<noteq> componentIDs l ! j
                 then dynamicID B else componentIDs (m_structuredBufferSpecializationArgs obj) ! j)" by simp
      show "componentIDs merged ! j =
           (if \<forall>l' \<in> set (seen @ [l]). componentIDs l' ! j = c ! j then c ! j else dynamicID B)"
        using old new by (auto split: if_splits)
    qed
    from Cons.IH [of "with_structuredBufferArgs merged obj" "seen @ [l]"] Cons.prems(1) w c inv
    show ?thesis using m by simp
  qed
qed



text \<open>
  Claim C1. On a container with no stored signature, the first element's argument list
  is adopted as it is. Merging a list into a stored one of the same length replaces
  the component id at each position where the two differ with the id of the dynamic
  type and keeps every other position. So after the lists of all elements were merged,
  a position on which all elements agree holds the first element's component id, and
  every other position holds the id of the dynamic type.
\<close>

theorem element_signature_merge:
  assumes "getCount (m_structuredBufferSpecializationArgs obj) = 0"
    and "\<forall>l \<in> set (first # rest). wellFormedList l \<and> getCount l = getCount first"
  shows "setSpecializationArgsForContainerElement B obj first = Inr (with_structuredBufferArgs first obj) \<and>
         (\<forall>stored l. wellFormedList stored \<and> wellFormedList l \<and>
                      getCount stored = getCount l \<and> 0 < getCount l \<longrightarrow>
            (\<exists>merged.
               setSpecializationArgsForContainerElement B (with_structuredBufferArgs stored obj) l =
                 Inr (with_structuredBufferArgs merged obj) \<and>
               getCount merged = getCount l \<and>
               (\<forall>j < getCount l.
                  componentIDs merged ! j =
                    (if componentIDs stored ! j \<noteq> componentIDs l ! j
                     then dynamicID B else componentIDs stored ! j)))) \<and>
         (\<exists>obj'. setElementArgs B obj (first # rest) = Inr obj' \<and>
                 getCount (m_structuredBufferSpecializationArgs obj') = getCount first \<and>
                 (\<forall>j < getCount first.
                    componentIDs (m_structuredBufferSpecializationArgs obj') ! j =
                      (if \<forall>l \<in> set rest. componentIDs l ! j = componentIDs first ! j
                       then componentIDs first ! j else dynamicID B)))"
proof (intro conjI allI impI)
  show first: "setSpecializationArgsForContainerElement B obj first = Inr (with_structuredBufferArgs first obj)"
    using assms(1) by (rule setElement_first)
  show "\<exists>merged.
          setSpecializationArgsForContainerElement B (with_structuredBufferArgs stored obj) l =
            Inr (with_structuredBufferArgs merged obj) \<and>
          getCount merged = getCount l \<and>
          (\<forall>j < getCount l.
             componentIDs merged ! j =
               (if componentIDs stored ! j \<noteq> componentIDs l ! j
                then dynamicID B else componentIDs stored ! j))"
    if "wellFormedList stored \<and> wellFormedList l \<and> getCount stored = getCount l \<and> 0 < getCount l"
    for stored l
    using setElement_merge [of "with_structuredBufferArgs stored obj" l B] that
    by (auto simp add: with_structuredBufferArgs_def)
  have "\<exists>obj'. setElementArgs B (with_structuredBufferArgs first obj) rest = Inr obj' \<and>
           wellFormedList (m_structuredBufferSpecializationArgs obj') \<and>
           getCount (m_structuredBufferSpecializationArgs obj') = getCount first \<and>
           (\<forall>j < getCount first. componentIDs (m_structuredBufferSpecializationArgs obj') ! j =
              (if \<forall>l \<in> set ([] @ rest). componentIDs l ! j = componentIDs first ! j
               then componentIDs first ! j else dynamicID B))"
    using assms(2) by (intro setElementArgs_invariant) simp_all
  with first show "\<exists>obj'. setElementArgs B obj (first # rest) = Inr obj' \<and>
                 getCount (m_structuredBufferSpecializationArgs obj') = getCount first \<and>
                 (\<forall>j < getCount first.
                    componentIDs (m_structuredBufferSpecializationArgs obj') ! j =
                      (if \<forall>l \<in> set rest. componentIDs l ! j = componentIDs first ! j
                       then componentIDs first ! j else dynamicID B))"
    by auto
qed

theorem element_signature_merge_witness:
  "\<exists>obj'. setElementArgs exampleBackend exampleContainer
            [exampleArgs [10, 20], exampleArgs [10, 21], exampleArgs [10, 20]] = Inr obj' \<and>
          componentIDs (m_structuredBufferSpecializationArgs obj') ! 0 = 10 \<and>
          componentIDs (m_structuredBufferSpecializationArgs obj') ! 1 = 0"
proof -
  have fresh: "getCount (m_structuredBufferSpecializationArgs exampleContainer) = 0"
    by (simp add: exampleContainer_def getCount_def emptyList_def)
  have lists: "\<forall>l \<in> set (exampleArgs [10, 20] # [exampleArgs [10, 21], exampleArgs [10, 20]]).
                 wellFormedList l \<and> getCount l = getCount (exampleArgs [10, 20])"
    by (simp add: exampleArgs_def wellFormedList_def getCount_def)
  from element_signature_merge [OF fresh lists, of exampleBackend]
  obtain obj' where run: "setElementArgs exampleBackend exampleContainer
                            (exampleArgs [10, 20] # [exampleArgs [10, 21], exampleArgs [10, 20]]) = Inr obj'"
    and ids: "\<forall>j < getCount (exampleArgs [10, 20]).
                componentIDs (m_structuredBufferSpecializationArgs obj') ! j =
                  (if \<forall>l \<in> set [exampleArgs [10, 21], exampleArgs [10, 20]].
                        componentIDs l ! j = componentIDs (exampleArgs [10, 20]) ! j
                   then componentIDs (exampleArgs [10, 20]) ! j else dynamicID exampleBackend)"
    by blast
  have dyn: "dynamicID exampleBackend = 0"
    by (simp add: dynamicID_def exampleBackend_def)
  from ids have "componentIDs (m_structuredBufferSpecializationArgs obj') ! 0 = 10"
    by (simp add: exampleArgs_def getCount_def)
  moreover from ids dyn have "componentIDs (m_structuredBufferSpecializationArgs obj') ! 1 = 0"
    by (simp add: exampleArgs_def getCount_def)
  ultimately show ?thesis using run by simp
qed


subsection \<open>The state check of setObject\<close>

text \<open>
  Claim C3. \<^verbatim>\<open>setObject\<close> on a finalized object returns \<^verbatim>\<open>SLANG_FAIL\<close> and leaves
  the object as it was; so it does on an initialized object when the sub-object is not
  finalized. On an object in the initial state the check lets every sub-object through,
  finalized or not: the call is then the binding itself, and binding into a parameter
  block or constant buffer range at a valid index succeeds and stores the sub-object.
\<close>

theorem setObject_state_check:
  "(m_state obj = Finalized \<longrightarrow> setObject B obj offset object = Inr (SLANG_FAIL, obj)) \<and>
   (m_state obj = Initialized \<and> \<not> isFinalized object \<longrightarrow>
      setObject B obj offset object = Inr (SLANG_FAIL, obj)) \<and>
   (m_state obj = Initial \<longrightarrow>
      setObject B obj offset object =
        (if m_containerType (m_layout obj) \<noteq> ContainerNone
         then setObjectElement B obj offset object
         else setObjectField B obj offset object)) \<and>
   (m_state obj = Initial \<and> m_containerType (m_layout obj) = ContainerNone \<and>
    0 \<le> bindingRangeIndex offset \<and>
    bindingRangeIndex offset < int (length (m_bindingRanges (m_layout obj))) \<and>
    bindingType (m_bindingRanges (m_layout obj) ! nat (bindingRangeIndex offset))
      \<in> {ParameterBlock, ConstantBuffer} \<and>
    0 \<le> subObjectIndex (m_bindingRanges (m_layout obj) ! nat (bindingRangeIndex offset)) + bindingArrayIndex offset \<and>
    subObjectIndex (m_bindingRanges (m_layout obj) ! nat (bindingRangeIndex offset)) + bindingArrayIndex offset
      < int (length (m_objects obj)) \<longrightarrow>
      setObject B obj offset object =
        Inr (SLANG_OK,
             with_objects
               ((m_objects obj)
                  [nat (subObjectIndex (m_bindingRanges (m_layout obj) ! nat (bindingRangeIndex offset)) +
                        bindingArrayIndex offset) := Some object]) obj))"
  by (auto simp add: setObject_def setObjectField_def Let_def)

theorem setObject_state_check_witness:
  "setObject exampleBackend (exampleParent Finalized) \<lparr>uniformOffset = 0, bindingRangeIndex = 0, bindingArrayIndex = 0\<rparr>
     (exampleStruct 5 Finalized []) = Inr (SLANG_FAIL, exampleParent Finalized) \<and>
   setObject exampleBackend (exampleParent Initialized) \<lparr>uniformOffset = 0, bindingRangeIndex = 0, bindingArrayIndex = 0\<rparr>
     (exampleStruct 5 Initialized []) = Inr (SLANG_FAIL, exampleParent Initialized) \<and>
   setObject exampleBackend (exampleParent Initial) \<lparr>uniformOffset = 0, bindingRangeIndex = 0, bindingArrayIndex = 0\<rparr>
     (exampleStruct 5 Initialized []) =
     Inr (SLANG_OK, with_objects [Some (exampleStruct 5 Initialized []), None] (exampleParent Initial))"
proof -
  let ?offset = "\<lparr>uniformOffset = 0, bindingRangeIndex = 0, bindingArrayIndex = 0\<rparr>"
  have "setObject exampleBackend (exampleParent Finalized) ?offset (exampleStruct 5 Finalized []) =
          Inr (SLANG_FAIL, exampleParent Finalized)"
    using setObject_state_check [of "exampleParent Finalized" exampleBackend ?offset "exampleStruct 5 Finalized []"]
    by simp
  moreover
  have "setObject exampleBackend (exampleParent Initialized) ?offset (exampleStruct 5 Initialized []) =
          Inr (SLANG_FAIL, exampleParent Initialized)"
    using setObject_state_check [of "exampleParent Initialized" exampleBackend ?offset "exampleStruct 5 Initialized []"]
    by (simp add: isFinalized_def)
  moreover
  have "setObject exampleBackend (exampleParent Initial) ?offset (exampleStruct 5 Initialized []) =
          Inr (SLANG_OK, with_objects [Some (exampleStruct 5 Initialized []), None] (exampleParent Initial))"
    using setObject_state_check [of "exampleParent Initial" exampleBackend ?offset "exampleStruct 5 Initialized []"]
    by auto
  ultimately show ?thesis by blast
qed

subsection \<open>Indices of sub-objects\<close>

lemma getObject_invalid:
  "bindingRangeIndex offset < 0 \<or>
   bindingRangeIndex offset \<ge> int (length (m_bindingRanges (m_layout obj))) \<Longrightarrow>
   getObject obj offset = Inr (SLANG_E_INVALID_ARG, None)"
  by (auto simp add: getObject_def)

lemma getObject_valid:
  "0 \<le> bindingRangeIndex offset \<and>
   bindingRangeIndex offset < int (length (m_bindingRanges (m_layout obj))) \<Longrightarrow>
   getObject obj offset =
     (if 0 \<le> subObjectIndex (m_bindingRanges (m_layout obj) ! nat (bindingRangeIndex offset)) +
              bindingArrayIndex offset \<and>
         subObjectIndex (m_bindingRanges (m_layout obj) ! nat (bindingRangeIndex offset)) +
              bindingArrayIndex offset < int (length (m_objects obj))
      then (case m_objects obj !
                  nat (subObjectIndex (m_bindingRanges (m_layout obj) ! nat (bindingRangeIndex offset)) +
                       bindingArrayIndex offset) of
              None \<Rightarrow> Inl NullDereference
            | Some s \<Rightarrow> Inr (SLANG_OK, Some s))
      else Inl OutOfBounds)"
  by (simp add: getObject_def at_def returnComPtr_def Let_def split: option.splits)

lemma setObject_admitted:
  "admits obj object \<Longrightarrow>
   setObject B obj offset object =
     (if m_containerType (m_layout obj) \<noteq> ContainerNone
      then setObjectElement B obj offset object
      else setObjectField B obj offset object)"
  by (cases "m_state obj") (simp_all add: setObject_def admits_def Let_def)

lemma setObjectField_invalid:
  "bindingRangeIndex offset < 0 \<or>
   bindingRangeIndex offset \<ge> int (length (m_bindingRanges (m_layout obj))) \<Longrightarrow>
   setObjectField B obj offset object = Inr (SLANG_E_INVALID_ARG, obj)"
  by (auto simp add: setObjectField_def)

lemma setObjectField_outside:
  "0 \<le> bindingRangeIndex offset \<and>
   bindingRangeIndex offset < int (length (m_bindingRanges (m_layout obj))) \<Longrightarrow>
   \<not> (0 \<le> subObjectIndex (m_bindingRanges (m_layout obj) ! nat (bindingRangeIndex offset)) +
            bindingArrayIndex offset \<and>
       subObjectIndex (m_bindingRanges (m_layout obj) ! nat (bindingRangeIndex offset)) +
            bindingArrayIndex offset < int (length (m_objects obj))) \<Longrightarrow>
   setObjectField B obj offset object = Inl OutOfBounds"
  by (simp add: setObjectField_def Let_def)

lemma setObjectField_inside:
  "0 \<le> bindingRangeIndex offset \<and>
   bindingRangeIndex offset < int (length (m_bindingRanges (m_layout obj))) \<Longrightarrow>
   0 \<le> subObjectIndex (m_bindingRanges (m_layout obj) ! nat (bindingRangeIndex offset)) +
            bindingArrayIndex offset \<and>
   subObjectIndex (m_bindingRanges (m_layout obj) ! nat (bindingRangeIndex offset)) +
            bindingArrayIndex offset < int (length (m_objects obj)) \<Longrightarrow>
   setObjectField B obj offset object \<noteq> Inl OutOfBounds"
  by (simp add: setObjectField_def Let_def split: option.splits prod.splits)

text \<open>
  Claim C10. \<^verbatim>\<open>getObject\<close>, and \<^verbatim>\<open>setObject\<close> on an object that is not a
  container, return \<^verbatim>\<open>SLANG_E_INVALID_ARG\<close> for a binding range index that is negative
  or not below the number of binding ranges. With a valid binding range index nothing
  checks the binding array index: the slot \<open>subObjectIndex + bindingArrayIndex\<close> of
  \<^verbatim>\<open>m_objects\<close> is accessed, inside the vector or not (\<^verbatim>\<open>getObject\<close> then returns
  the sub-object of a slot inside the vector, and dereferences the null pointer of an
  empty one). The access is inside when the binding array index is within the count of
  the range and \<^verbatim>\<open>m_objects\<close> covers the range.
\<close>

theorem binding_array_index_unchecked:
  "(bindingRangeIndex offset < 0 \<or>
    bindingRangeIndex offset \<ge> int (length (m_bindingRanges (m_layout obj))) \<longrightarrow>
      getObject obj offset = Inr (SLANG_E_INVALID_ARG, None) \<and>
      (m_containerType (m_layout obj) = ContainerNone \<and> admits obj object \<longrightarrow>
         setObject B obj offset object = Inr (SLANG_E_INVALID_ARG, obj))) \<and>
   (0 \<le> bindingRangeIndex offset \<and>
    bindingRangeIndex offset < int (length (m_bindingRanges (m_layout obj))) \<longrightarrow>
      (let bindingRange = m_bindingRanges (m_layout obj) ! nat (bindingRangeIndex offset);
           objectIndex = subObjectIndex bindingRange + bindingArrayIndex offset
       in getObject obj offset =
            (if 0 \<le> objectIndex \<and> objectIndex < int (length (m_objects obj))
             then (case m_objects obj ! nat objectIndex of
                     None \<Rightarrow> Inl NullDereference
                   | Some s \<Rightarrow> Inr (SLANG_OK, Some s))
             else Inl OutOfBounds) \<and>
          (m_containerType (m_layout obj) = ContainerNone \<and> admits obj object \<and>
           \<not> (0 \<le> objectIndex \<and> objectIndex < int (length (m_objects obj))) \<longrightarrow>
             setObject B obj offset object = Inl OutOfBounds) \<and>
          (0 \<le> bindingArrayIndex offset \<and> bindingArrayIndex offset < count_range bindingRange \<and>
           0 \<le> subObjectIndex bindingRange \<and>
           subObjectIndex bindingRange + count_range bindingRange \<le> int (length (m_objects obj)) \<longrightarrow>
             0 \<le> objectIndex \<and> objectIndex < int (length (m_objects obj)) \<and>
             getObject obj offset \<noteq> Inl OutOfBounds \<and>
             (m_containerType (m_layout obj) = ContainerNone \<and> admits obj object \<longrightarrow>
                setObject B obj offset object \<noteq> Inl OutOfBounds))))"
proof -
  let ?valid = "0 \<le> bindingRangeIndex offset \<and>
                bindingRangeIndex offset < int (length (m_bindingRanges (m_layout obj)))"
  let ?plain = "m_containerType (m_layout obj) = ContainerNone \<and> admits obj object"
  have invalid: "getObject obj offset = Inr (SLANG_E_INVALID_ARG, None) \<and>
                 (?plain \<longrightarrow> setObject B obj offset object = Inr (SLANG_E_INVALID_ARG, obj))"
    if "bindingRangeIndex offset < 0 \<or>
        bindingRangeIndex offset \<ge> int (length (m_bindingRanges (m_layout obj)))"
    using that getObject_invalid [of offset obj] setObject_admitted [of obj object B offset]
      setObjectField_invalid [of offset obj B object]
    by simp
  have valid: "(let bindingRange = m_bindingRanges (m_layout obj) ! nat (bindingRangeIndex offset);
           objectIndex = subObjectIndex bindingRange + bindingArrayIndex offset
       in getObject obj offset =
            (if 0 \<le> objectIndex \<and> objectIndex < int (length (m_objects obj))
             then (case m_objects obj ! nat objectIndex of
                     None \<Rightarrow> Inl NullDereference
                   | Some s \<Rightarrow> Inr (SLANG_OK, Some s))
             else Inl OutOfBounds) \<and>
          (m_containerType (m_layout obj) = ContainerNone \<and> admits obj object \<and>
           \<not> (0 \<le> objectIndex \<and> objectIndex < int (length (m_objects obj))) \<longrightarrow>
             setObject B obj offset object = Inl OutOfBounds) \<and>
          (0 \<le> bindingArrayIndex offset \<and> bindingArrayIndex offset < count_range bindingRange \<and>
           0 \<le> subObjectIndex bindingRange \<and>
           subObjectIndex bindingRange + count_range bindingRange \<le> int (length (m_objects obj)) \<longrightarrow>
             0 \<le> objectIndex \<and> objectIndex < int (length (m_objects obj)) \<and>
             getObject obj offset \<noteq> Inl OutOfBounds \<and>
             (m_containerType (m_layout obj) = ContainerNone \<and> admits obj object \<longrightarrow>
                setObject B obj offset object \<noteq> Inl OutOfBounds)))"
    if v: ?valid
  proof -
    let ?k = "subObjectIndex (m_bindingRanges (m_layout obj) ! nat (bindingRangeIndex offset)) +
              bindingArrayIndex offset"
    have g: "getObject obj offset =
               (if 0 \<le> ?k \<and> ?k < int (length (m_objects obj))
                then (case m_objects obj ! nat ?k of
                        None \<Rightarrow> Inl NullDereference
                      | Some s \<Rightarrow> Inr (SLANG_OK, Some s))
                else Inl OutOfBounds)"
      using v by (rule getObject_valid)
    have reads: "getObject obj offset \<noteq> Inl OutOfBounds"
      if "0 \<le> ?k \<and> ?k < int (length (m_objects obj))"
      using that g by (simp split: option.splits)
    have out: "setObject B obj offset object = Inl OutOfBounds"
      if "?plain" "\<not> (0 \<le> ?k \<and> ?k < int (length (m_objects obj)))"
      using that v setObject_admitted [of obj object B offset] setObjectField_outside [of offset obj B object]
      by simp
    have inside: "setObject B obj offset object \<noteq> Inl OutOfBounds"
      if "?plain" "0 \<le> ?k \<and> ?k < int (length (m_objects obj))"
      using that v setObject_admitted [of obj object B offset] setObjectField_inside [of offset obj B object]
      by simp
    have covered: "0 \<le> ?k \<and> ?k < int (length (m_objects obj))"
      if "0 \<le> bindingArrayIndex offset \<and>
          bindingArrayIndex offset
            < count_range (m_bindingRanges (m_layout obj) ! nat (bindingRangeIndex offset)) \<and>
          0 \<le> subObjectIndex (m_bindingRanges (m_layout obj) ! nat (bindingRangeIndex offset)) \<and>
          subObjectIndex (m_bindingRanges (m_layout obj) ! nat (bindingRangeIndex offset)) +
            count_range (m_bindingRanges (m_layout obj) ! nat (bindingRangeIndex offset))
            \<le> int (length (m_objects obj))"
      using that by linarith
    show ?thesis
      unfolding Let_def using g reads out inside covered by blast
  qed
  from invalid valid show ?thesis by blast
qed

theorem binding_array_index_unchecked_witness:
  "getObject (exampleParent Initial) \<lparr>uniformOffset = 0, bindingRangeIndex = 2, bindingArrayIndex = 0\<rparr> =
     Inr (SLANG_E_INVALID_ARG, None) \<and>
   setObject exampleBackend (exampleParent Initial)
     \<lparr>uniformOffset = 0, bindingRangeIndex = - 1, bindingArrayIndex = 0\<rparr> (exampleStruct 5 Initialized []) =
     Inr (SLANG_E_INVALID_ARG, exampleParent Initial) \<and>
   getObject (exampleParent Initial) \<lparr>uniformOffset = 0, bindingRangeIndex = 0, bindingArrayIndex = 2\<rparr> =
     Inl OutOfBounds \<and>
   setObject exampleBackend (exampleParent Initial)
     \<lparr>uniformOffset = 0, bindingRangeIndex = 0, bindingArrayIndex = 2\<rparr> (exampleStruct 5 Initialized []) =
     Inl OutOfBounds \<and>
   getObject (with_objects [Some (exampleStruct 5 Initialized []), None] (exampleParent Initial))
     \<lparr>uniformOffset = 0, bindingRangeIndex = 0, bindingArrayIndex = 0\<rparr> =
     Inr (SLANG_OK, Some (exampleStruct 5 Initialized [])) \<and>
   getObject (with_objects [Some (exampleStruct 5 Initialized []), None] (exampleParent Initial))
     \<lparr>uniformOffset = 0, bindingRangeIndex = 0, bindingArrayIndex = 1\<rparr> =
     Inl NullDereference"
proof -
  let ?bound = "with_objects [Some (exampleStruct 5 Initialized []), None] (exampleParent Initial)"
  have adm: "admits (exampleParent Initial) (exampleStruct 5 Initialized [])"
    by (simp add: admits_def)
  have "getObject (exampleParent Initial) \<lparr>uniformOffset = 0, bindingRangeIndex = 2, bindingArrayIndex = 0\<rparr> =
          Inr (SLANG_E_INVALID_ARG, None)"
    using binding_array_index_unchecked [of "\<lparr>uniformOffset = 0, bindingRangeIndex = 2, bindingArrayIndex = 0\<rparr>"
            "exampleParent Initial" "exampleStruct 5 Initialized []" exampleBackend]
    by simp
  moreover
  have "setObject exampleBackend (exampleParent Initial)
          \<lparr>uniformOffset = 0, bindingRangeIndex = - 1, bindingArrayIndex = 0\<rparr> (exampleStruct 5 Initialized []) =
          Inr (SLANG_E_INVALID_ARG, exampleParent Initial)"
    using binding_array_index_unchecked [of "\<lparr>uniformOffset = 0, bindingRangeIndex = - 1, bindingArrayIndex = 0\<rparr>"
            "exampleParent Initial" "exampleStruct 5 Initialized []" exampleBackend] adm
    by simp
  moreover
  have "getObject (exampleParent Initial) \<lparr>uniformOffset = 0, bindingRangeIndex = 0, bindingArrayIndex = 2\<rparr> =
          Inl OutOfBounds \<and>
        setObject exampleBackend (exampleParent Initial)
          \<lparr>uniformOffset = 0, bindingRangeIndex = 0, bindingArrayIndex = 2\<rparr> (exampleStruct 5 Initialized []) =
          Inl OutOfBounds"
    using binding_array_index_unchecked [of "\<lparr>uniformOffset = 0, bindingRangeIndex = 0, bindingArrayIndex = 2\<rparr>"
            "exampleParent Initial" "exampleStruct 5 Initialized []" exampleBackend] adm
    by (simp add: Let_def)
  moreover
  have "getObject ?bound \<lparr>uniformOffset = 0, bindingRangeIndex = 0, bindingArrayIndex = 0\<rparr> =
          Inr (SLANG_OK, Some (exampleStruct 5 Initialized []))"
    using binding_array_index_unchecked [of "\<lparr>uniformOffset = 0, bindingRangeIndex = 0, bindingArrayIndex = 0\<rparr>"
            ?bound "exampleStruct 5 Initialized []" exampleBackend]
    by (simp add: Let_def)
  moreover
  have "getObject ?bound \<lparr>uniformOffset = 0, bindingRangeIndex = 0, bindingArrayIndex = 1\<rparr> =
          Inl NullDereference"
    using binding_array_index_unchecked [of "\<lparr>uniformOffset = 0, bindingRangeIndex = 0, bindingArrayIndex = 1\<rparr>"
            ?bound "exampleStruct 5 Initialized []" exampleBackend]
    by (simp add: Let_def)
  ultimately show ?thesis by blast
qed

subsection \<open>Finalization\<close>

lemma finalize_result:
  "(finalize B obj = Inr (SLANG_OK, obj') \<longrightarrow>
      m_state obj \<noteq> Finalized \<and>
      (\<exists>objs'. finalizeObjects B (m_objects obj) = Inr (SLANG_OK, objs') \<and>
               obj' = with_state Finalized (with_objects objs' obj)))"
  by (cases obj) (auto simp add: with_state_def with_objects_def SLANG_FAILED_def split: if_splits sum.splits prod.splits)

lemma finalizeObjects_slots:
  "finalizeObjects B objs = Inr (SLANG_OK, objs') \<Longrightarrow> list_all2 (finalizedSlot B) objs objs'"
proof (induction objs arbitrary: objs')
  case Nil
  then show ?case by simp
next
  case (Cons object rest)
  show ?case
  proof (cases object)
    case None
    with Cons.prems obtain rest' where r: "finalizeObjects B rest = Inr (SLANG_OK, rest')"
      and o: "objs' = None # rest'"
      by (auto split: sum.splits prod.splits)
    from Cons.IH [OF r] o None show ?thesis
      by (simp add: finalizedSlot_def)
  next
    case (Some s)
    show ?thesis
    proof (cases "isFinalized s")
      case True
      with Some Cons.prems obtain rest' where r: "finalizeObjects B rest = Inr (SLANG_OK, rest')"
        and o: "objs' = Some s # rest'"
        by (auto split: sum.splits prod.splits)
      from Cons.IH [OF r] o Some True show ?thesis
        by (simp add: finalizedSlot_def)
    next
      case False
      with Some Cons.prems obtain s' rest' where f: "finalize B s = Inr (SLANG_OK, s')"
        and r: "finalizeObjects B rest = Inr (SLANG_OK, rest')"
        and o: "objs' = Some s' # rest'"
        by (auto simp add: SLANG_FAILED_def split: sum.splits prod.splits if_splits)
      from Cons.IH [OF r] o Some False f show ?thesis
        by (simp add: finalizedSlot_def)
    qed
  qed
qed

lemma finalize_state: "finalize B obj = Inr (SLANG_OK, obj') \<Longrightarrow> m_state obj' = Finalized"
  using finalize_result [of B obj obj'] by (auto simp add: with_state_def)

lemma finalizedSlot_state:
  "finalizedSlot B before (Some s') \<Longrightarrow> isFinalized s'"
  by (auto simp add: finalizedSlot_def isFinalized_def split: option.splits if_splits sum.splits
           dest: finalize_state)

lemma finalize_deep:
  "finalize B obj = Inr (SLANG_OK, obj') \<Longrightarrow> finalizedBottomUp obj \<Longrightarrow> allFinalized obj'"
  and finalizeObjects_deep:
  "finalizeObjects B objs = Inr (SLANG_OK, objs') \<Longrightarrow>
   list_all (\<lambda>object. case object of None \<Rightarrow> True
                 | Some s \<Rightarrow> finalizedBottomUp s \<and> (isFinalized s \<longrightarrow> allFinalized s)) objs \<Longrightarrow>
   list_all (\<lambda>object. case object of None \<Rightarrow> True | Some s \<Rightarrow> allFinalized s) objs'"
proof (induction B obj and B objs arbitrary: obj' and objs' rule: finalize_finalizeObjects.induct)
  case (1 B layout st dat objs userArgs sbArgs im)
  then show ?case
    by (auto simp add: SLANG_FAILED_def split: if_splits sum.splits prod.splits)
next
  case (2 B)
  then show ?case by simp
next
  case (3 B rest)
  then show ?case by (auto split: sum.splits prod.splits)
next
  case (4 B object rest)
  then show ?case
    by (auto simp add: SLANG_FAILED_def split: if_splits sum.splits prod.splits)
qed



lemma finalizedSlots_finalized:
  "list_all2 (finalizedSlot B) objs objs' \<Longrightarrow>
   list_all (\<lambda>object. case object of None \<Rightarrow> True | Some s \<Rightarrow> isFinalized s) objs'"
  by (induction rule: list_all2_induct) (auto split: option.splits dest: finalizedSlot_state)

text \<open>
  Claim C4. After a successful \<^verbatim>\<open>finalize\<close> the object is in the finalized state;
  \<^verbatim>\<open>setObject\<close> and \<^verbatim>\<open>setSpecializationArgs\<close> on it return \<^verbatim>\<open>SLANG_FAIL\<close>
  (the code this layer returns for an operation that the state forbids) and leave it as
  it is; a second \<^verbatim>\<open>finalize\<close> fails too, with \<^verbatim>\<open>SLANG_FAIL\<close> or, in a build that
  checks assertions, at the assertion. Every bound sub-object is finalized: one that was
  not has been finalized by its own successful \<^verbatim>\<open>finalize\<close>, and so on down the tree.
\<close>

theorem finalize_makes_immutable:
  assumes "finalize B obj = Inr (SLANG_OK, obj')"
  shows "m_state obj' = Finalized \<and>
         setObject B obj' offset object = Inr (SLANG_FAIL, obj') \<and>
         setSpecializationArgs B obj' offset args = Inr (SLANG_FAIL, obj') \<and>
         finalize B obj' = (if asserts B then Inl AssertionFailure else Inr (SLANG_FAIL, obj')) \<and>
         list_all2 (finalizedSlot B) (m_objects obj) (m_objects obj') \<and>
         list_all (\<lambda>object. case object of None \<Rightarrow> True | Some s \<Rightarrow> isFinalized s) (m_objects obj') \<and>
         (finalizedBottomUp obj \<longrightarrow> allFinalized obj')"
proof -
  have st: "m_state obj' = Finalized" using assms by (rule finalize_state)
  from finalize_result [of B obj obj'] assms
  obtain objs' where os: "finalizeObjects B (m_objects obj) = Inr (SLANG_OK, objs')"
    and o': "obj' = with_state Finalized (with_objects objs' obj)" by blast
  have slots: "list_all2 (finalizedSlot B) (m_objects obj) (m_objects obj')"
    using finalizeObjects_slots [OF os] o' by simp
  have again: "finalize B obj' = (if asserts B then Inl AssertionFailure else Inr (SLANG_FAIL, obj'))"
    using st by (cases obj') (simp add: SLANG_RHI_ASSERT_def)
  from st slots again finalizedSlots_finalized [OF slots] finalize_deep [OF assms]
  show ?thesis
    by (simp add: setObject_def setSpecializationArgs_def isFinalized_def)
qed

theorem finalize_makes_immutable_witness:
  "finalize exampleBackend
     (with_objects [Some (exampleStruct 5 Initialized []), None] (exampleParent Initialized)) =
     Inr (SLANG_OK,
          with_state Finalized
            (with_objects [Some (exampleStruct 5 Finalized []), None] (exampleParent Initialized))) \<and>
   setObject exampleBackend
     (with_state Finalized
        (with_objects [Some (exampleStruct 5 Finalized []), None] (exampleParent Initialized)))
     \<lparr>uniformOffset = 0, bindingRangeIndex = 0, bindingArrayIndex = 0\<rparr> (exampleStruct 6 Finalized []) =
     Inr (SLANG_FAIL,
          with_state Finalized
            (with_objects [Some (exampleStruct 5 Finalized []), None] (exampleParent Initialized))) \<and>
   finalize exampleBackend
     (with_state Finalized
        (with_objects [Some (exampleStruct 5 Finalized []), None] (exampleParent Initialized))) =
     Inl AssertionFailure"
proof -
  let ?obj = "with_objects [Some (exampleStruct 5 Initialized []), None] (exampleParent Initialized)"
  let ?obj' = "with_state Finalized
                 (with_objects [Some (exampleStruct 5 Finalized []), None] (exampleParent Initialized))"
  have run: "finalize exampleBackend ?obj = Inr (SLANG_OK, ?obj')"
    by (simp add: with_objects_def with_state_def exampleParent_def exampleStruct_def
          exampleBackend_def SLANG_RHI_ASSERT_def SLANG_FAILED_def isFinalized_def)
  from finalize_makes_immutable [OF run,
         of "\<lparr>uniformOffset = 0, bindingRangeIndex = 0, bindingArrayIndex = 0\<rparr>"
            "exampleStruct 6 Finalized []" "[]"]
  have "setObject exampleBackend ?obj'
          \<lparr>uniformOffset = 0, bindingRangeIndex = 0, bindingArrayIndex = 0\<rparr> (exampleStruct 6 Finalized []) =
          Inr (SLANG_FAIL, ?obj')"
    and "finalize exampleBackend ?obj' = Inl AssertionFailure"
    by (simp_all add: exampleBackend_def)
  with run show ?thesis by blast
qed


subsection \<open>Growing a container\<close>

lemma resize_length [simp]: "length (resize n d xs) = n"
  by (simp add: resize_def)

lemma resize_nth:
  "k < n \<Longrightarrow> resize n d xs ! k = (if k < length xs then xs ! k else d)"
  by (simp add: resize_def nth_append)

text \<open>
  Claim C8. When \<^verbatim>\<open>setObject\<close> on a container targets an element index at or beyond
  the size of \<^verbatim>\<open>m_objects\<close>, the vector is resized to the index plus one (the new
  slots are null) and the data to the stride of the element type layout times the new
  size; the bytes that the resize adds are zero, and those it keeps are unchanged. The
  element is then written into the object so grown.
\<close>

theorem container_growth:
  assumes "m_containerType (m_layout obj) \<noteq> ContainerNone"
    and "admits obj object"
    and "m_elementTypeLayout (m_layout obj) = Some elementTypeLayout"
    and "int (length (m_objects obj)) \<le> bindingArrayIndex offset"
  shows "\<exists>obj1. growForElement obj (nat (bindingArrayIndex offset)) = Inr obj1 \<and>
           setObject B obj offset object = writeElement B obj1 offset object \<and>
           length (m_objects obj1) = nat (bindingArrayIndex offset) + 1 \<and>
           length (m_data obj1) = getStride elementTypeLayout * length (m_objects obj1) \<and>
           (\<forall>i < length (m_objects obj1).
              m_objects obj1 ! i = (if i < length (m_objects obj) then m_objects obj ! i else None)) \<and>
           (\<forall>k < length (m_data obj1).
              m_data obj1 ! k = (if k < length (m_data obj) then m_data obj ! k else 0))"
proof -
  let ?i = "nat (bindingArrayIndex offset)"
  let ?objects = "resize (?i + 1) None (m_objects obj)"
  let ?obj1 = "with_data (resize (length ?objects * getStride elementTypeLayout) 0 (m_data obj))
                 (with_objects ?objects obj)"
  have inside: "length (m_objects obj) \<le> ?i" and nonneg: "\<not> bindingArrayIndex offset < 0"
    using assms(4) by simp_all
  have grow: "growForElement obj ?i = Inr ?obj1"
    using inside assms(3) by (simp add: growForElement_def Let_def)
  have run: "setObject B obj offset object = writeElement B ?obj1 offset object"
    using assms(1) nonneg grow setObject_admitted [OF assms(2), of B offset]
    by (simp add: setObjectElement_def)
  show ?thesis
    using grow run by (simp add: resize_nth mult.commute)
qed


theorem container_growth_witness:
  "\<exists>obj1. growForElement exampleContainer 2 = Inr obj1 \<and>
          setObject exampleBackend exampleContainer
            \<lparr>uniformOffset = 8, bindingRangeIndex = 0, bindingArrayIndex = 2\<rparr>
            (exampleStruct 1 Initialized [1, 2, 3, 4]) =
          writeElement exampleBackend obj1
            \<lparr>uniformOffset = 8, bindingRangeIndex = 0, bindingArrayIndex = 2\<rparr>
            (exampleStruct 1 Initialized [1, 2, 3, 4]) \<and>
          length (m_objects obj1) = 3 \<and> length (m_data obj1) = 12 \<and>
          m_objects obj1 ! 1 = None \<and> m_data obj1 ! 11 = 0"
proof -
  let ?offset = "\<lparr>uniformOffset = 8, bindingRangeIndex = 0, bindingArrayIndex = 2\<rparr>"
  let ?object = "exampleStruct 1 Initialized [1, 2, 3, 4]"
  have h1: "m_containerType (m_layout exampleContainer) \<noteq> ContainerNone" by simp
  have h2: "admits exampleContainer ?object" by (simp add: admits_def)
  have h3: "m_elementTypeLayout (m_layout exampleContainer) =
              Some (TypeLayoutReflection (Some 1) KindStruct OtherShape None 4)" by simp
  have h4: "int (length (m_objects exampleContainer)) \<le> bindingArrayIndex ?offset" by simp
  from container_growth [OF h1 h2 h3 h4, of exampleBackend]
  obtain obj1 where g: "growForElement exampleContainer 2 = Inr obj1"
    and r: "setObject exampleBackend exampleContainer ?offset ?object =
            writeElement exampleBackend obj1 ?offset ?object"
    and lo: "length (m_objects obj1) = 3"
    and ld: "length (m_data obj1) = 4 * length (m_objects obj1)"
    and os: "\<forall>i < length (m_objects obj1).
               m_objects obj1 ! i = (if i < length (m_objects exampleContainer)
                                     then m_objects exampleContainer ! i else None)"
    and ds: "\<forall>k < length (m_data obj1).
               m_data obj1 ! k = (if k < length (m_data exampleContainer)
                                  then m_data exampleContainer ! k else 0)"
    by auto
  from lo os have "m_objects obj1 ! 1 = None" by simp
  moreover from lo ld ds have "m_data obj1 ! 11 = 0" by simp
  ultimately show ?thesis using g r lo ld by simp
qed

subsection \<open>Binding an existential value\<close>

text \<open>
  Claim C7. When \<^verbatim>\<open>setObject\<close> stores a sub-object into a binding range of type
  existential value, the sub-object is recorded in its slot and the existential header
  is written at the offset of the binding (a failure of that write is returned). Then,
  if the concrete type's value fits in the payload of the existential field, the
  sub-object's bytes are copied to the offset advanced by 16 and the call succeeds;
  otherwise the call returns \<^verbatim>\<open>SLANG_E_NOT_IMPLEMENTED\<close>.
\<close>

theorem existential_leaf_binding:
  assumes "admits obj object"
    and "m_containerType (m_layout obj) = ContainerNone"
    and "0 \<le> bindingRangeIndex offset"
    and "bindingRangeIndex offset < int (length (m_bindingRanges (m_layout obj)))"
    and "bindingRange = m_bindingRanges (m_layout obj) ! nat (bindingRangeIndex offset)"
    and "bindingType bindingRange = ExistentialValue"
    and "0 \<le> subObjectIndex bindingRange + bindingArrayIndex offset"
    and "subObjectIndex bindingRange + bindingArrayIndex offset < int (length (m_objects obj))"
    and "m_elementTypeLayout (m_layout object) = Some concreteTypeLayout"
    and "m_elementTypeLayout (m_layout obj) = Some elementTypeLayout"
    and "getBindingRangeLeafTypeLayout B elementTypeLayout (bindingRangeIndex offset) = Some existentialTypeLayout"
    and "stored = with_objects ((m_objects obj)[nat (subObjectIndex bindingRange + bindingArrayIndex offset) := Some object]) obj"
    and "setExistentialHeader B (getType existentialTypeLayout) (getType concreteTypeLayout) offset stored = (r, headed)"
  shows "setObject B obj offset object =
           (if SLANG_FAILED r then Inr (r, headed)
            else if doesValueFitInExistentialPayload B concreteTypeLayout existentialTypeLayout
            then Inr (SLANG_OK,
                   snd (setData B (offset\<lparr>uniformOffset := uniformOffset offset + 16\<rparr>) (m_data object) headed))
            else Inr (SLANG_E_NOT_IMPLEMENTED, headed))"
  using assms(2-) setObject_admitted [OF assms(1), of B offset]
  by (simp add: setObjectField_def Let_def)


theorem existential_leaf_binding_witness:
  "setObject exampleBackend (exampleParent Initial)
     \<lparr>uniformOffset = 16, bindingRangeIndex = 1, bindingArrayIndex = 0\<rparr>
     (exampleStruct 2 Initialized [1, 2, 3, 4, 5, 6, 7, 8]) =
   Inr (SLANG_OK,
        with_data (replicate 24 0 @ [2] @ replicate 7 0 @ [1, 2, 3, 4, 5, 6, 7, 8] @ replicate 8 0)
          (with_objects [None, Some (exampleStruct 2 Initialized [1, 2, 3, 4, 5, 6, 7, 8])]
             (exampleParent Initial))) \<and>
   setObject exampleBackend (exampleParent Initial)
     \<lparr>uniformOffset = 16, bindingRangeIndex = 1, bindingArrayIndex = 0\<rparr>
     (exampleStruct 5 Initialized (replicate 20 1)) =
   Inr (SLANG_E_NOT_IMPLEMENTED,
        with_data (replicate 24 0 @ [5] @ replicate 7 0 @ replicate 16 0)
          (with_objects [None, Some (exampleStruct 5 Initialized (replicate 20 1))]
             (exampleParent Initial)))"
proof -
  let ?offset = "\<lparr>uniformOffset = 16, bindingRangeIndex = 1, bindingArrayIndex = 0\<rparr>"
  let ?range = "\<lparr>bindingType = ExistentialValue, count_range = 1, subObjectIndex = 1, isSpecializable = False\<rparr>"
  let ?existential = "TypeLayoutReflection (Some 9) KindInterface OtherShape None 32"
  let ?element = "TypeLayoutReflection (Some 3) KindStruct OtherShape None 48"
  have fits: "setObject exampleBackend (exampleParent Initial) ?offset
                (exampleStruct 2 Initialized [1, 2, 3, 4, 5, 6, 7, 8]) =
              Inr (SLANG_OK,
                with_data (replicate 24 0 @ [2] @ replicate 7 0 @ [1, 2, 3, 4, 5, 6, 7, 8] @ replicate 8 0)
                  (with_objects [None, Some (exampleStruct 2 Initialized [1, 2, 3, 4, 5, 6, 7, 8])]
                     (exampleParent Initial)))"
  proof -
    let ?object = "exampleStruct 2 Initialized [1, 2, 3, 4, 5, 6, 7, 8]"
    let ?obj1 = "with_objects [None, Some ?object] (exampleParent Initial)"
    let ?obj2 = "with_data (replicate 24 0 @ [2] @ replicate 7 0 @ replicate 16 0) ?obj1"
    have header: "setExistentialHeader exampleBackend (getType ?existential)
                    (getType (TypeLayoutReflection (Some 2) KindStruct OtherShape None (4 * 2))) ?offset ?obj1 =
                  (SLANG_OK, ?obj2)"
      by (simp add: exampleSetData_def isFinalized_def with_data_def replicate_add [symmetric]
            del: replicate_add)
    have "setObject exampleBackend (exampleParent Initial) ?offset ?object =
            (if SLANG_FAILED SLANG_OK then Inr (SLANG_OK, ?obj2)
             else if doesValueFitInExistentialPayload exampleBackend
                       (TypeLayoutReflection (Some 2) KindStruct OtherShape None (4 * 2)) ?existential
             then Inr (SLANG_OK,
                    snd (setData exampleBackend (?offset\<lparr>uniformOffset := uniformOffset ?offset + 16\<rparr>)
                           (m_data ?object) ?obj2))
             else Inr (SLANG_E_NOT_IMPLEMENTED, ?obj2))"
      by (rule existential_leaf_binding [where bindingRange = ?range and elementTypeLayout = ?element
            and stored = ?obj1, OF _ _ _ _ _ _ _ _ _ _ _ _ header])
         (simp_all add: admits_def)
    then show ?thesis
      by (simp add: SLANG_FAILED_def exampleSetData_def isFinalized_def with_data_def)
  qed
  have overflow: "setObject exampleBackend (exampleParent Initial) ?offset
                (exampleStruct 5 Initialized (replicate 20 1)) =
              Inr (SLANG_E_NOT_IMPLEMENTED,
                with_data (replicate 24 0 @ [5] @ replicate 7 0 @ replicate 16 0)
                  (with_objects [None, Some (exampleStruct 5 Initialized (replicate 20 1))]
                     (exampleParent Initial)))"
  proof -
    let ?object = "exampleStruct 5 Initialized (replicate 20 1)"
    let ?obj1 = "with_objects [None, Some ?object] (exampleParent Initial)"
    let ?obj2 = "with_data (replicate 24 0 @ [5] @ replicate 7 0 @ replicate 16 0) ?obj1"
    have header: "setExistentialHeader exampleBackend (getType ?existential)
                    (getType (TypeLayoutReflection (Some 5) KindStruct OtherShape None (4 * 5))) ?offset ?obj1 =
                  (SLANG_OK, ?obj2)"
      by (simp add: exampleSetData_def isFinalized_def with_data_def replicate_add [symmetric]
            del: replicate_add)
    have "setObject exampleBackend (exampleParent Initial) ?offset ?object =
            (if SLANG_FAILED SLANG_OK then Inr (SLANG_OK, ?obj2)
             else if doesValueFitInExistentialPayload exampleBackend
                       (TypeLayoutReflection (Some 5) KindStruct OtherShape None (4 * 5)) ?existential
             then Inr (SLANG_OK,
                    snd (setData exampleBackend (?offset\<lparr>uniformOffset := uniformOffset ?offset + 16\<rparr>)
                           (m_data ?object) ?obj2))
             else Inr (SLANG_E_NOT_IMPLEMENTED, ?obj2))"
      by (rule existential_leaf_binding [where bindingRange = ?range and elementTypeLayout = ?element
            and stored = ?obj1, OF _ _ _ _ _ _ _ _ _ _ _ _ header])
         (simp_all add: admits_def)
    then show ?thesis
      by (simp add: SLANG_FAILED_def)
  qed
  from fits overflow show ?thesis by blast
qed


subsection \<open>User-supplied arguments in collectSpecializationArgs\<close>

lemma add_fields [simp]:
  "componentIDs (add l c) = componentIDs l @ [componentID c]"
  "components (add l c) = components l @ [\<lparr>kind = Type, type = slangType c\<rparr>]"
  by (simp_all add: add_def)

lemma addRangeFrom_spec:
  "wellFormedList list \<Longrightarrow> i \<le> getCount list \<Longrightarrow>
   \<exists>l'. addRangeFrom i l list = Inr l' \<and>
         componentIDs l' = componentIDs l @ drop i (componentIDs list) \<and>
         map type (components l') = map type (components l) @ drop i (map type (components list)) \<and>
         (wellFormedList l \<longrightarrow> wellFormedList l')"
proof (induction i l list rule: addRangeFrom.induct)
  case (1 i l list)
  show ?case
  proof (cases "i < getCount list")
    case False
    have "addRangeFrom i l list = Inr l"
      using False by (simp add: addRangeFrom.simps [of i l list])
    moreover have "drop i (componentIDs list) = []" "drop i (map type (components list)) = []"
      using False "1.prems" by (simp_all add: getCount_def wellFormedList_def)
    ultimately show ?thesis by simp
  next
    case True
    have ix: "index list (int i) =
                Inr \<lparr>slangType = type (components list ! i), componentID = componentIDs list ! i\<rparr>"
      using True "1.prems"(1) by (rule index_in_range [rotated])
    from "1.IH" [OF True ix "1.prems"(1)] True
    obtain l' where r: "addRangeFrom (Suc i) (add l \<lparr>slangType = type (components list ! i),
                                                      componentID = componentIDs list ! i\<rparr>) list = Inr l'"
      and ids: "componentIDs l' = (componentIDs l @ [componentIDs list ! i]) @ drop (Suc i) (componentIDs list)"
      and tys: "map type (components l') =
                  map type (components l @ [\<lparr>kind = Type, type = type (components list ! i)\<rparr>]) @
                  drop (Suc i) (map type (components list))"
      and wf: "wellFormedList (add l \<lparr>slangType = type (components list ! i),
                                       componentID = componentIDs list ! i\<rparr>) \<longrightarrow> wellFormedList l'"
      by auto
    have step: "addRangeFrom i l list = Inr l'"
      using True ix r by (simp add: addRangeFrom.simps [of i l list])
    have i1: "i < length (componentIDs list)" and i2: "i < length (components list)"
      using True "1.prems"(1) by (simp_all add: getCount_def wellFormedList_def)
    have d1: "drop i (componentIDs list) = componentIDs list ! i # drop (Suc i) (componentIDs list)"
      using i1 by (simp add: Cons_nth_drop_Suc)
    have d2: "drop i (map type (components list)) =
                type (components list ! i) # drop (Suc i) (map type (components list))"
      using i2 by (simp add: Cons_nth_drop_Suc [symmetric])
    from step ids tys wf d1 d2 show ?thesis
      by (simp add: wellFormedList_def)
  qed
qed

lemma addRange_spec:
  "wellFormedList list \<Longrightarrow>
   \<exists>l'. addRange l list = Inr l' \<and>
         componentIDs l' = componentIDs l @ componentIDs list \<and>
         map type (components l') = map type (components l) @ map type (components list) \<and>
         (wellFormedList l \<longrightarrow> wellFormedList l')"
  using addRangeFrom_spec [of list 0 l] by (simp add: addRange_def)

lemma collect_bound_overridden:
  "collectSpecializationArgs exampleBackend (exampleOverridden (Some (exampleStruct 5 Initialized []))) emptyList =
     Inr (SLANG_OK, exampleArgs [7])"
  by (simp add: exampleOverridden_def with_userArgs_def with_objects_def exampleParent_def
        collectRange.simps at_def addRange_def addRangeFrom.simps getCount_def index_def
        exampleArgs_def emptyList_def fromType_def add_def SLANG_FAILED_def Let_def)

lemma collect_bound_derived:
  "collectSpecializationArgs exampleBackend
     (with_objects [None, Some (exampleStruct 5 Initialized [])] (exampleParent Initial)) emptyList =
     Inr (SLANG_OK, exampleArgs [5])"
  by (simp add: with_userArgs_def with_objects_def exampleParent_def
        collectRange.simps at_def addRange_def addRangeFrom.simps getCount_def index_def
        deriveTypeArgs_def
        exampleArgs_def emptyList_def fromType_def add_def SLANG_FAILED_def Let_def)

text \<open>
  A list stored by \<^verbatim>\<open>setSpecializationArgs\<close> is built with \<^verbatim>\<open>add\<close> from the empty list,
  so its two vectors have the same length.
\<close>

lemma stored_list_wellFormed:
  "getExtendedShaderTypeListFromSpecializationArgs B list specArgs = Inr (r, stored) \<Longrightarrow>
   wellFormedList list \<Longrightarrow> wellFormedList stored"
proof (induction specArgs arbitrary: list)
  case Nil
  then show ?case by simp
next
  case (Cons arg rest)
  show ?case
  proof (cases "kind arg")
    case Unknown
    with Cons.prems show ?thesis by (simp split: if_splits)
  next
    case Type
    with Cons.prems have
      "getExtendedShaderTypeListFromSpecializationArgs B
         (add list \<lparr>slangType = type arg, componentID = getComponentId B (type arg)\<rparr>) rest = Inr (r, stored)"
      by simp
    moreover have "wellFormedList (add list \<lparr>slangType = type arg, componentID = getComponentId B (type arg)\<rparr>)"
      using Cons.prems(2) by (simp add: wellFormedList_def)
    ultimately show ?thesis by (rule Cons.IH)
  qed
qed

text \<open>
  \<^verbatim>\<open>addRange\<close> only appends, to both vectors alike, and the merge loop keeps the
  lengths and everything below \<open>oldArgsCount\<close>.
\<close>

lemma addRangeFrom_extends:
  "addRangeFrom i l list = Inr l' \<Longrightarrow>
   \<exists>s t. componentIDs l' = componentIDs l @ s \<and> components l' = components l @ t \<and>
         length s = length t"
proof (induction "getCount list - i" arbitrary: i l)
  case 0
  from "0.hyps" have "addRangeFrom i l list = Inr l"
    by (simp add: addRangeFrom.simps [of i l list])
  with "0.prems" show ?case by simp
next
  case (Suc d)
  then have inside: "i < getCount list" by simp
  with Suc.prems obtain c where r: "addRangeFrom (Suc i) (add l c) list = Inr l'"
    by (auto simp add: addRangeFrom.simps [of i l list] split: sum.splits)
  have "d = getCount list - Suc i" using Suc.hyps(2) by simp
  from Suc.hyps(1) [OF this r]
  obtain s t where "componentIDs l' = componentIDs (add l c) @ s"
    "components l' = components (add l c) @ t" "length s = length t"
    by blast
  then have "componentIDs l' = componentIDs l @ (componentID c # s) \<and>
             components l' = components l @ (\<lparr>kind = Type, type = slangType c\<rparr> # t) \<and>
             length (componentID c # s) = length (\<lparr>kind = Type, type = slangType c\<rparr> # t)"
    by simp
  then show ?case by blast
qed

lemma addRange_extends:
  "addRange l list = Inr l' \<Longrightarrow>
   \<exists>s t. componentIDs l' = componentIDs l @ s \<and> components l' = components l @ t \<and>
         length s = length t"
  unfolding addRange_def by (rule addRangeFrom_extends)

lemma replaceDiffering_prefix:
  "replaceDiffering B oldArgsCount n i args typeArgs = Inr args' \<Longrightarrow>
   length (componentIDs args') = length (componentIDs args) \<and>
   length (components args') = length (components args) \<and>
   take oldArgsCount (componentIDs args') = take oldArgsCount (componentIDs args) \<and>
   take oldArgsCount (components args') = take oldArgsCount (components args)"
proof (induction "n - i" arbitrary: i args)
  case 0
  from "0.hyps" have "replaceDiffering B oldArgsCount n i args typeArgs = Inr args"
    by (simp add: replaceDiffering.simps [of B oldArgsCount n i args typeArgs])
  with "0.prems" show ?case by simp
next
  case (Suc d)
  then have inside: "i < n" by simp
  have d: "d = n - Suc i" using Suc.hyps(2) by simp
  let ?args2 = "args\<lparr>componentIDs := (componentIDs args)[i + oldArgsCount := getComponentId B (getDynamicType B)],
                     components := (components args)[i + oldArgsCount := fromType (getDynamicType B)]\<rparr>"
  from Suc.prems inside
  consider "replaceDiffering B oldArgsCount n (Suc i) args typeArgs = Inr args'"
    | "replaceDiffering B oldArgsCount n (Suc i) ?args2 typeArgs = Inr args'"
    by (auto simp add: replaceDiffering.simps [of B oldArgsCount n i args typeArgs] Let_def
          split: sum.splits if_splits)
  then show ?case
  proof cases
    case 1
    from Suc.hyps(1) [OF d 1] show ?thesis .
  next
    case 2
    from Suc.hyps(1) [OF d 2] show ?thesis by simp
  qed
qed


lemma collectRange_step:
  assumes inside: "int k < count_range br"
    and run: "collectRange B br subs ua old k args = Inr (SLANG_OK, out)"
  shows "\<exists>args'. collectRange B br subs ua old (Suc k) args' = Inr (SLANG_OK, out) \<and>
           length (componentIDs args) \<le> length (componentIDs args') \<and>
           (wellFormedList args \<longrightarrow> wellFormedList args') \<and>
           (\<forall>m. m \<le> old \<and> m \<le> length (componentIDs args) \<and> m \<le> length (components args) \<longrightarrow>
              take m (componentIDs args') = take m (componentIDs args) \<and>
              take m (components args') = take m (components args)) \<and>
           (\<not> derivedAt subs ua (subObjectIndex br + int k) \<longrightarrow>
              (\<exists>s t. componentIDs args' = componentIDs args @ s \<and>
                     components args' = components args @ t)) \<and>
           (\<forall>e. at subs (subObjectIndex br + int k) = Inr (Some e) \<and>
                hasUserArgs ua (subObjectIndex br + int k) \<longrightarrow>
                addRange args (the (ua ! nat (subObjectIndex br + int k))) = Inr args')"
proof -
  let ?idx = "subObjectIndex br + int k"
  let ?next = "\<lambda>a. collectRange B br subs ua old (Suc k) a = Inr (SLANG_OK, out)"
  from run inside
  consider (empty) "at subs ?idx = Inr None" "?next args"
    | (user) e a where "at subs ?idx = Inr (Some e)" "hasUserArgs ua ?idx"
        "addRange args (the (ua ! nat ?idx)) = Inr a" "?next a"
    | (first) e typeArgs a where "at subs ?idx = Inr (Some e)" "\<not> hasUserArgs ua ?idx"
        "addRange args typeArgs = Inr a" "?next a"
    | (merge) e typeArgs a where "at subs ?idx = Inr (Some e)" "\<not> hasUserArgs ua ?idx"
        "replaceDiffering B old (getCount args - old) 0 args typeArgs = Inr a" "?next a"
    by (auto simp add: collectRange.simps [of B br subs ua old k args] Let_def hasUserArgs_def
          SLANG_FAILED_def split: sum.splits option.splits prod.splits if_splits)
  then show ?thesis
  proof cases
    case empty
    then have "\<not> derivedAt subs ua ?idx" by (simp add: derivedAt_def)
    with empty show ?thesis by auto
  next
    case user
    from addRange_extends [OF user(3)]
    obtain s t where "componentIDs a = componentIDs args @ s" "components a = components args @ t"
      "length s = length t" by blast
    with user show ?thesis
      by (intro exI [of _ a]) (auto simp add: wellFormedList_def)
  next
    case first
    from addRange_extends [OF first(3)]
    obtain s t where "componentIDs a = componentIDs args @ s" "components a = components args @ t"
      "length s = length t" by blast
    with first show ?thesis
      by (intro exI [of _ a]) (auto simp add: wellFormedList_def)
  next
    case merge
    from replaceDiffering_prefix [OF merge(3)]
    have l: "length (componentIDs a) = length (componentIDs args)"
      "length (components a) = length (components args)"
      and p: "take old (componentIDs a) = take old (componentIDs args)"
      "take old (components a) = take old (components args)"
      by simp_all
    have pre: "take m (componentIDs a) = take m (componentIDs args) \<and>
               take m (components a) = take m (components args)" if "m \<le> old" for m
    proof -
      have "take m (take old (componentIDs a)) = take m (take old (componentIDs args))"
        "take m (take old (components a)) = take m (take old (components args))"
        using p by simp_all
      with that show ?thesis by (simp add: min_def)
    qed
    have d: "derivedAt subs ua ?idx" using merge(1,2) by (simp add: derivedAt_def)
    from merge l pre d show ?thesis
      by (intro exI [of _ a]) (auto simp add: wellFormedList_def)
  qed
qed

lemma collectRange_reach:
  "collectRange B br subs ua old j args = Inr (SLANG_OK, out) \<Longrightarrow> j \<le> k \<Longrightarrow>
   int k \<le> count_range br \<Longrightarrow> wellFormedList args \<Longrightarrow> m \<le> old \<Longrightarrow> m \<le> getCount args \<Longrightarrow>
   \<exists>reached. collectRange B br subs ua old k reached = Inr (SLANG_OK, out) \<and>
        wellFormedList reached \<and> getCount args \<le> getCount reached \<and>
        take m (componentIDs reached) = take m (componentIDs args) \<and>
        take m (components reached) = take m (components args)"
proof (induction "k - j" arbitrary: j args)
  case 0
  then have "j = k" by simp
  with "0.prems" show ?case by auto
next
  case (Suc d)
  then have jk: "j < k" and d: "d = k - Suc j" by simp_all
  with Suc.prems have inside: "int j < count_range br" by simp
  from collectRange_step [OF inside Suc.prems(1)]
  obtain a where r: "collectRange B br subs ua old (Suc j) a = Inr (SLANG_OK, out)"
    and len: "length (componentIDs args) \<le> length (componentIDs a)"
    and wf: "wellFormedList a"
    and pre: "take m (componentIDs a) = take m (componentIDs args)"
      "take m (components a) = take m (components args)"
    using Suc.prems(4,5,6) by (auto simp add: wellFormedList_def getCount_def)
  have "m \<le> getCount a" using len Suc.prems(6) by (simp add: getCount_def)
  from Suc.hyps(1) [OF d r _ Suc.prems(3) wf Suc.prems(5) this] jk
  obtain reached where "collectRange B br subs ua old k reached = Inr (SLANG_OK, out)"
    "wellFormedList reached" "getCount a \<le> getCount reached"
    "take m (componentIDs reached) = take m (componentIDs a)"
    "take m (components reached) = take m (components a)"
    by auto
  with pre len show ?case by (auto simp add: getCount_def)
qed

lemma collectRange_prefix:
  assumes run: "collectRange B br subs ua old 0 args = Inr (SLANG_OK, out)"
    and wf: "wellFormedList args" and m: "m \<le> old" "m \<le> getCount args"
  shows "wellFormedList out \<and> getCount args \<le> getCount out \<and>
         take m (componentIDs out) = take m (componentIDs args) \<and>
         take m (components out) = take m (components args)"
proof (cases "0 \<le> count_range br")
  case False
  then have "collectRange B br subs ua old 0 args = Inr (SLANG_OK, args)"
    by (simp add: collectRange.simps [of B br subs ua old 0 args])
  with run wf show ?thesis by simp
next
  case True
  then have "int (nat (count_range br)) \<le> count_range br" by simp
  from collectRange_reach [OF run _ this wf m]
  obtain reached where r: "collectRange B br subs ua old (nat (count_range br)) reached = Inr (SLANG_OK, out)"
    and facts: "wellFormedList reached" "getCount args \<le> getCount reached"
    "take m (componentIDs reached) = take m (componentIDs args)"
    "take m (components reached) = take m (components args)"
    by auto
  have "collectRange B br subs ua old (nat (count_range br)) reached = Inr (SLANG_OK, reached)"
    using True by (simp add: collectRange.simps [of B br subs ua old "nat (count_range br)" reached])
  with r have "out = reached" by simp
  with facts show ?thesis by simp
qed

lemma collectRange_tail:
  "collectRange B br subs ua old k args = Inr (SLANG_OK, out) \<Longrightarrow>
   (\<And>j. k \<le> j \<Longrightarrow> int j < count_range br \<Longrightarrow> \<not> derivedAt subs ua (subObjectIndex br + int j)) \<Longrightarrow>
   \<exists>s t. componentIDs out = componentIDs args @ s \<and> components out = components args @ t"
proof (induction "nat (count_range br) - k" arbitrary: k args)
  case 0
  then have "\<not> int k < count_range br" by simp
  then have "collectRange B br subs ua old k args = Inr (SLANG_OK, args)"
    by (simp add: collectRange.simps [of B br subs ua old k args])
  with "0.prems"(1) show ?case by simp
next
  case (Suc d)
  then have inside: "int k < count_range br" and d: "d = nat (count_range br) - Suc k" by simp_all
  have here: "\<not> derivedAt subs ua (subObjectIndex br + int k)"
    using Suc.prems(2) [of k] inside by simp
  from collectRange_step [OF inside Suc.prems(1)] here
  obtain a s t where r: "collectRange B br subs ua old (Suc k) a = Inr (SLANG_OK, out)"
    and a: "componentIDs a = componentIDs args @ s" "components a = components args @ t"
    by blast
  have "\<exists>s t. componentIDs out = componentIDs a @ s \<and> components out = components a @ t"
    using d r
  proof (rule Suc.hyps(1))
    fix j assume "Suc k \<le> j" "int j < count_range br"
    then show "\<not> derivedAt subs ua (subObjectIndex br + int j)"
      using Suc.prems(2) [of j] by simp
  qed
  with a show ?case by auto
qed

lemma collectRanges_start:
  assumes "collectRanges B layout subs ua (subObjectRange # rest) args = Inr (SLANG_OK, out)"
  shows "\<exists>br a. at (m_bindingRanges layout) (SubObjectRangeInfo.bindingRangeIndex subObjectRange) = Inr br \<and>
           collectRange B br subs ua (getCount args) 0 args = Inr (SLANG_OK, a) \<and>
           collectRanges B layout subs ua rest a = Inr (SLANG_OK, out)"
  using assms by (auto simp add: SLANG_FAILED_def split: sum.splits prod.splits if_splits)

lemma collectRanges_prefix:
  "collectRanges B layout subs ua ranges args = Inr (SLANG_OK, out) \<Longrightarrow> wellFormedList args \<Longrightarrow>
   wellFormedList out \<and>
   (\<exists>s t. componentIDs out = componentIDs args @ s \<and> components out = components args @ t)"
proof (induction ranges arbitrary: args)
  case Nil
  then show ?case by simp
next
  case (Cons subObjectRange rest)
  from collectRanges_start [OF Cons.prems(1)]
  obtain br a where r: "collectRange B br subs ua (getCount args) 0 args = Inr (SLANG_OK, a)"
    and rest: "collectRanges B layout subs ua rest a = Inr (SLANG_OK, out)"
    by blast
  from collectRange_prefix [OF r Cons.prems(2) order_refl order_refl]
  have wf: "wellFormedList a" and len: "getCount args \<le> getCount a"
    and pre: "take (getCount args) (componentIDs a) = take (getCount args) (componentIDs args)"
      "take (getCount args) (components a) = take (getCount args) (components args)"
    by simp_all
  have "componentIDs a = componentIDs args @ drop (getCount args) (componentIDs a)"
    using pre(1) append_take_drop_id [of "getCount args" "componentIDs a"]
    by (simp add: getCount_def)
  moreover
  have "components a = components args @ drop (getCount args) (components a)"
    using pre(2) Cons.prems(2) append_take_drop_id [of "getCount args" "components a"]
    by (simp add: getCount_def wellFormedList_def)
  moreover
  from Cons.IH [OF rest wf]
  obtain s t where "wellFormedList out" "componentIDs out = componentIDs a @ s"
    "components out = components a @ t" by blast
  ultimately show ?case
    by (metis append.assoc)
qed

lemma collectRanges_reach:
  "collectRanges B layout subs ua ranges args = Inr (SLANG_OK, out) \<Longrightarrow> r < length ranges \<Longrightarrow>
   wellFormedList args \<Longrightarrow>
   \<exists>reached br a.
      wellFormedList reached \<and>
      at (m_bindingRanges layout) (SubObjectRangeInfo.bindingRangeIndex (ranges ! r)) = Inr br \<and>
      collectRange B br subs ua (getCount reached) 0 reached = Inr (SLANG_OK, a) \<and>
      collectRanges B layout subs ua (drop (Suc r) ranges) a = Inr (SLANG_OK, out)"
proof (induction ranges arbitrary: r args)
  case Nil
  then show ?case by simp
next
  case (Cons subObjectRange rest)
  from collectRanges_start [OF Cons.prems(1)]
  obtain br a where b: "at (m_bindingRanges layout) (SubObjectRangeInfo.bindingRangeIndex subObjectRange) = Inr br"
    and c: "collectRange B br subs ua (getCount args) 0 args = Inr (SLANG_OK, a)"
    and rest: "collectRanges B layout subs ua rest a = Inr (SLANG_OK, out)"
    by blast
  show ?case
  proof (cases r)
    case 0
    with b c rest Cons.prems(3) show ?thesis by auto
  next
    case (Suc r')
    from collectRange_prefix [OF c Cons.prems(3) order_refl order_refl]
    have wf: "wellFormedList a" by simp
    from Suc Cons.prems(2) have "r' < length rest" by simp
    from Cons.IH [OF rest this wf] Suc show ?thesis by simp
  qed
qed

text \<open>
  Replacing a bound sub-object whose index has a user-supplied list changes nothing in
  the walk, and a list appended in a range stays where it is when no later element of
  the range is derived.
\<close>

lemma derivedAt_map:
  "derivedAt (map (map_option f) objs) ua i = derivedAt objs ua i"
  by (auto simp add: derivedAt_def at_def split: option.splits)

lemma collectRange_skip:
  assumes n: "n < length subs" "subs ! n \<noteq> None" and u: "hasUserArgs ua (int n)"
  shows "collectRange B br (subs[n := Some e]) ua old k args = collectRange B br subs ua old k args"
proof (induction "nat (count_range br) - k" arbitrary: k args)
  case 0
  then have "\<not> int k < count_range br" by simp
  then show ?case
    by (simp add: collectRange.simps [of B br "subs[n := Some e]" ua old k args]
          collectRange.simps [of B br subs ua old k args])
next
  case (Suc d)
  then have d: "d = nat (count_range br) - Suc k" by simp
  note IH = Suc.hyps(1) [OF d]
  show ?case
  proof (cases "subObjectIndex br + int k = int n")
    case True
    from n obtain e0 where e0: "subs ! n = Some e0" by auto
    have inside: "int k < count_range br" using Suc.hyps(2) by simp
    have "collectRange B br (subs[n := Some e]) ua old k args =
            (case addRange args (the (ua ! n)) of
               Inl f \<Rightarrow> Inl f
             | Inr a \<Rightarrow> collectRange B br (subs[n := Some e]) ua old (Suc k) a)"
      using True n u inside
      by (simp add: collectRange.simps [of B br "subs[n := Some e]" ua old k args] at_def
            hasUserArgs_def Let_def split: prod.splits)
    moreover
    have "collectRange B br subs ua old k args =
            (case addRange args (the (ua ! n)) of
               Inl f \<Rightarrow> Inl f
             | Inr a \<Rightarrow> collectRange B br subs ua old (Suc k) a)"
      using True n u inside e0
      by (simp add: collectRange.simps [of B br subs ua old k args] at_def
            hasUserArgs_def Let_def split: prod.splits)
    ultimately show ?thesis
      by (simp add: IH cong: sum.case_cong)
  next
    case False
    then have "at (subs[n := Some e]) (subObjectIndex br + int k) = at subs (subObjectIndex br + int k)"
      by (auto simp add: at_def nth_list_update)
    then show ?thesis
      by (simp add: collectRange.simps [of B br "subs[n := Some e]" ua old k args]
            collectRange.simps [of B br subs ua old k args] IH Let_def
            cong: sum.case_cong option.case_cong prod.case_cong if_cong)
  qed
qed

lemma collectRanges_skip:
  assumes "n < length subs" "subs ! n \<noteq> None" "hasUserArgs ua (int n)"
  shows "collectRanges B layout (subs[n := Some e]) ua ranges args = collectRanges B layout subs ua ranges args"
proof (induction ranges arbitrary: args)
  case Nil
  show ?case by simp
next
  case (Cons subObjectRange rest)
  show ?case
    by (simp add: collectRange_skip [OF assms] Cons.IH cong: sum.case_cong prod.case_cong if_cong)
qed

lemma collectRanges_user_list:
  assumes run: "collectRanges B layout subs ua ranges args = Inr (SLANG_OK, out)"
    and wf: "wellFormedList args"
    and r: "r < length ranges"
    and br: "at (m_bindingRanges layout) (SubObjectRangeInfo.bindingRangeIndex (ranges ! r)) = Inr br"
    and k: "int k < count_range br"
    and bound: "at subs (subObjectIndex br + int k) = Inr (Some e)"
    and user: "hasUserArgs ua (subObjectIndex br + int k)"
      "ua ! nat (subObjectIndex br + int k) = Some userList"
    and wfu: "wellFormedList userList"
    and later: "\<And>j. k < j \<Longrightarrow> int j < count_range br \<Longrightarrow>
                  \<not> derivedAt subs ua (subObjectIndex br + int j)"
  shows "\<exists>before after tb ta.
           componentIDs out = before @ componentIDs userList @ after \<and>
           map type (components out) = tb @ map type (components userList) @ ta \<and>
           length tb = length before"
proof -
  from collectRanges_reach [OF run r wf] br
  obtain reached a where wr: "wellFormedList reached"
    and c: "collectRange B br subs ua (getCount reached) 0 reached = Inr (SLANG_OK, a)"
    and rest: "collectRanges B layout subs ua (drop (Suc r) ranges) a = Inr (SLANG_OK, out)"
    by auto
  from k have k': "int k \<le> count_range br" by simp
  from collectRange_reach [OF c _ k' wr order_refl order_refl]
  obtain here where h: "collectRange B br subs ua (getCount reached) k here = Inr (SLANG_OK, out')"
    and wh: "wellFormedList here" if "out' = a" for out'
    by auto
  from collectRange_step [OF k h [OF refl]] bound user
  obtain appended where n: "collectRange B br subs ua (getCount reached) (Suc k) appended = Inr (SLANG_OK, a)"
    and ad: "addRange here userList = Inr appended"
    by auto
  from addRange_spec [OF wfu, of here] ad wh
  have ids: "componentIDs appended = componentIDs here @ componentIDs userList"
    and tys: "map type (components appended) = map type (components here) @ map type (components userList)"
    and wa: "wellFormedList appended"
    by auto
  have "\<exists>s t. componentIDs a = componentIDs appended @ s \<and> components a = components appended @ t"
    using n
  proof (rule collectRange_tail)
    fix j assume "Suc k \<le> j" "int j < count_range br"
    then show "\<not> derivedAt subs ua (subObjectIndex br + int j)"
      using later [of j] by simp
  qed
  then obtain s t where a: "componentIDs a = componentIDs appended @ s"
    "components a = components appended @ t" by blast
  from collectRange_prefix [OF c wr order_refl order_refl]
  have wfa: "wellFormedList a" by simp
  from collectRanges_prefix [OF rest wfa]
  obtain s' t' where o: "componentIDs out = componentIDs a @ s'" "components out = components a @ t'"
    by blast
  have "componentIDs out = componentIDs here @ componentIDs userList @ (s @ s')"
    using o a ids by simp
  moreover
  have "map type (components out) =
          map type (components here) @ map type (components userList) @ (map type t @ map type t')"
    using o a tys by simp
  moreover
  have "length (map type (components here)) = length (componentIDs here)"
    using wh by (simp add: wellFormedList_def)
  ultimately show ?thesis by blast
qed

text \<open>
  Claim C5, as stated, fails: the loop skips a slot with no bound sub-object before it
  looks at the user-supplied lists, so a list supplied for such a slot is not appended.
  Here \<^verbatim>\<open>setSpecializationArgs\<close> gives slot 1 the list \<open>[7]\<close>, no sub-object is bound
  there, and nothing is collected.
\<close>

theorem user_args_unbound_counterexample:
  "setSpecializationArgs exampleBackend (exampleParent Initial)
     \<lparr>uniformOffset = 0, bindingRangeIndex = 1, bindingArrayIndex = 0\<rparr> [fromType (Some 7)] =
     Inr (SLANG_OK, exampleOverridden None) \<and>
   m_userProvidedSpecializationArgs (exampleOverridden None) ! 1 = Some (exampleArgs [7]) \<and>
   m_objects (exampleOverridden None) ! 1 = None \<and>
   collectSpecializationArgs exampleBackend (exampleOverridden None) emptyList = Inr (SLANG_OK, emptyList)"
proof -
  have "setSpecializationArgs exampleBackend (exampleParent Initial)
          \<lparr>uniformOffset = 0, bindingRangeIndex = 1, bindingArrayIndex = 0\<rparr> [fromType (Some 7)] =
        Inr (SLANG_OK, exampleOverridden None)"
    by (simp add: setSpecializationArgs_def isFinalized_def Let_def resize_def fromType_def
          add_def emptyList_def exampleArgs_def exampleOverridden_def exampleParent_def
          with_userArgs_def with_objects_def eval_nat_numeral)
  moreover
  have "m_userProvidedSpecializationArgs (exampleOverridden None) ! 1 = Some (exampleArgs [7]) \<and>
        m_objects (exampleOverridden None) ! 1 = None \<and>
        collectSpecializationArgs exampleBackend (exampleOverridden None) emptyList = Inr (SLANG_OK, emptyList)"
    by (simp add: exampleOverridden_def with_userArgs_def with_objects_def exampleParent_def
          collectRange.simps at_def SLANG_FAILED_def Let_def)
  ultimately show ?thesis by blast
qed

text \<open>
  Two runs on an object whose first range has two elements, the first of them bound with
  the user-supplied list \<open>[7]\<close>. Where the second element is bound too and has no list
  of its own, its derived argument \<open>[6]\<close> is merged into the position that the list
  filled, and the output is the dynamic type alone. Where the second element is not
  bound, the list stands, followed by what the second range contributes.
\<close>

lemma collect_later_derived:
  "collectSpecializationArgs exampleBackend
     (exampleArray [Some (exampleStruct 5 Initialized []), Some (exampleStruct 6 Initialized []), None]
        [Some (exampleArgs [7])]) emptyList =
     Inr (SLANG_OK, exampleArgs [0])"
  by (simp add: exampleArray_def collectRange.simps at_def addRange_def addRangeFrom.simps
        replaceDiffering.simps getCount_def index_def deriveTypeArgs_def SLANG_RHI_ASSERT_def
        exampleArgs_def emptyList_def fromType_def add_def SLANG_FAILED_def Let_def)

lemma collect_later_unbound:
  "collectSpecializationArgs exampleBackend
     (exampleArray [Some (exampleStruct 5 Initialized []), None, Some (exampleStruct 6 Initialized [])]
        [Some (exampleArgs [7])]) emptyList =
     Inr (SLANG_OK, exampleArgs [7, 6])"
  by (simp add: exampleArray_def collectRange.simps at_def addRange_def addRangeFrom.simps
        replaceDiffering.simps getCount_def index_def deriveTypeArgs_def SLANG_RHI_ASSERT_def
        exampleArgs_def emptyList_def fromType_def add_def SLANG_FAILED_def Let_def)

text \<open>
  Claim C5, amended. In \<^verbatim>\<open>collectSpecializationArgs\<close> on an object that is not a
  container, for every index of a sub-object range that has a bound sub-object and a
  user-supplied argument list (of equally long vectors, as \<^verbatim>\<open>setSpecializationArgs\<close>
  stores it), nothing is derived from the bound sub-object: the call has the same outcome
  whichever sub-object is bound at that index. When moreover the call starts from a list
  of equally long vectors, returns \<^verbatim>\<open>SLANG_OK\<close>, and no later element of the same range
  is derived from its bound sub-object, the user-supplied list stands in the output: its
  component ids and its types, contiguous and in order, at the same position of both
  vectors. Nothing is stated of an index with no bound sub-object, nor of a list that is
  followed in its range by a derived element.
\<close>

theorem user_args_override:
  assumes plain: "m_containerType (m_layout obj) = ContainerNone"
    and range: "r < length (m_subObjectRanges (m_layout obj))"
    and br: "at (m_bindingRanges (m_layout obj))
               (SubObjectRangeInfo.bindingRangeIndex (m_subObjectRanges (m_layout obj) ! r)) =
             Inr bindingRange"
    and k: "int k < count_range bindingRange"
    and bound: "at (m_objects obj) (subObjectIndex bindingRange + int k) = Inr (Some subObject)"
    and user: "hasUserArgs (m_userProvidedSpecializationArgs obj) (subObjectIndex bindingRange + int k)"
    and list: "m_userProvidedSpecializationArgs obj ! nat (subObjectIndex bindingRange + int k) = Some userList"
    and wfu: "wellFormedList userList"
  shows "(\<forall>other. collectSpecializationArgs B
                    (with_objects ((m_objects obj)[nat (subObjectIndex bindingRange + int k) := Some other]) obj)
                    args =
                  collectSpecializationArgs B obj args) \<and>
         (wellFormedList args \<and>
          (\<forall>j. k < j \<and> int j < count_range bindingRange \<longrightarrow>
               \<not> derivedAt (m_objects obj) (m_userProvidedSpecializationArgs obj)
                   (subObjectIndex bindingRange + int j)) \<and>
          collectSpecializationArgs B obj args = Inr (SLANG_OK, out) \<longrightarrow>
          (\<exists>before after tb ta.
             componentIDs out = before @ componentIDs userList @ after \<and>
             map type (components out) = tb @ map type (components userList) @ ta \<and>
             length tb = length before))"
proof (cases obj)
  case (ShaderObject layout st dat objs ua sb im)
  let ?idx = "subObjectIndex bindingRange + int k"
  let ?pair = "\<lambda>subObject. (subObject, \<lambda>a. collectSpecializationArgs B subObject a)"
  let ?subs = "map (map_option ?pair) objs"
  from bound ShaderObject have inr: "0 \<le> ?idx" "nat ?idx < length objs" "objs ! nat ?idx = Some subObject"
    by (auto simp add: at_def split: if_splits)
  have c: "collectSpecializationArgs B obj a = collectRanges B layout ?subs ua (m_subObjectRanges layout) a" for a
    using plain ShaderObject by simp
  have skip: "collectSpecializationArgs B (with_objects ((m_objects obj)[nat ?idx := Some other]) obj) args =
              collectSpecializationArgs B obj args" for other
  proof -
    have "collectSpecializationArgs B (with_objects ((m_objects obj)[nat ?idx := Some other]) obj) args =
          collectRanges B layout (?subs[nat ?idx := Some (?pair other)]) ua (m_subObjectRanges layout) args"
      using plain ShaderObject by (simp add: with_objects_def map_update)
    also have "\<dots> = collectRanges B layout ?subs ua (m_subObjectRanges layout) args"
    proof (rule collectRanges_skip)
      show "nat ?idx < length ?subs" using inr by simp
      show "?subs ! nat ?idx \<noteq> None" using inr by simp
      show "hasUserArgs ua (int (nat ?idx))" using user inr ShaderObject by simp
    qed
    finally show ?thesis by (simp add: c)
  qed
  have stands: "\<exists>before after tb ta.
             componentIDs out = before @ componentIDs userList @ after \<and>
             map type (components out) = tb @ map type (components userList) @ ta \<and>
             length tb = length before"
    if wf: "wellFormedList args"
      and later: "\<forall>j. k < j \<and> int j < count_range bindingRange \<longrightarrow>
               \<not> derivedAt (m_objects obj) (m_userProvidedSpecializationArgs obj)
                   (subObjectIndex bindingRange + int j)"
      and run: "collectSpecializationArgs B obj args = Inr (SLANG_OK, out)"
  proof (rule collectRanges_user_list [where ua = ua and subs = ?subs and layout = layout and B = B
          and ranges = "m_subObjectRanges layout" and args = args and r = r and br = bindingRange
          and k = k and e = "?pair subObject"])
    show "collectRanges B layout ?subs ua (m_subObjectRanges layout) args = Inr (SLANG_OK, out)"
      using run by (simp add: c)
    show "wellFormedList args" by (rule wf)
    show "r < length (m_subObjectRanges layout)" using range ShaderObject by simp
    show "at (m_bindingRanges layout) (SubObjectRangeInfo.bindingRangeIndex (m_subObjectRanges layout ! r)) =
          Inr bindingRange" using br ShaderObject by simp
    show "int k < count_range bindingRange" by (rule k)
    show "at ?subs ?idx = Inr (Some (?pair subObject))" using inr by (simp add: at_def)
    show "hasUserArgs ua ?idx" using user ShaderObject by simp
    show "ua ! nat ?idx = Some userList" using list ShaderObject by simp
    show "wellFormedList userList" by (rule wfu)
    show "\<not> derivedAt ?subs ua (subObjectIndex bindingRange + int j)"
      if "k < j" "int j < count_range bindingRange" for j
      using later that ShaderObject by (simp add: derivedAt_map)
  qed
  from skip stands show ?thesis by blast
qed

theorem user_args_override_witness:
  "collectSpecializationArgs exampleBackend
     (exampleArray [Some (exampleStruct 9 Initialized []), None, Some (exampleStruct 6 Initialized [])]
        [Some (exampleArgs [7])]) emptyList =
   collectSpecializationArgs exampleBackend
     (exampleArray [Some (exampleStruct 5 Initialized []), None, Some (exampleStruct 6 Initialized [])]
        [Some (exampleArgs [7])]) emptyList \<and>
   collectSpecializationArgs exampleBackend
     (exampleArray [Some (exampleStruct 5 Initialized []), None, Some (exampleStruct 6 Initialized [])]
        [Some (exampleArgs [7])]) emptyList =
     Inr (SLANG_OK, exampleArgs [7, 6]) \<and>
   (\<exists>before after tb ta.
      componentIDs (exampleArgs [7, 6]) = before @ componentIDs (exampleArgs [7]) @ after \<and>
      map type (components (exampleArgs [7, 6])) = tb @ map type (components (exampleArgs [7])) @ ta \<and>
      length tb = length before)"
proof -
  let ?objs = "[Some (exampleStruct 5 Initialized []), None, Some (exampleStruct 6 Initialized [])]"
  let ?user = "[Some (exampleArgs [7])]"
  let ?obj = "exampleArray ?objs ?user"
  let ?range = "\<lparr>bindingType = ExistentialValue, count_range = 2, subObjectIndex = 0, isSpecializable = False\<rparr>"
  have h1: "m_containerType (m_layout ?obj) = ContainerNone"
    by (simp add: exampleArray_def)
  have h2: "0 < length (m_subObjectRanges (m_layout ?obj))"
    by (simp add: exampleArray_def)
  have h3: "at (m_bindingRanges (m_layout ?obj))
              (SubObjectRangeInfo.bindingRangeIndex (m_subObjectRanges (m_layout ?obj) ! 0)) = Inr ?range"
    by (simp add: exampleArray_def at_def)
  have h4: "int 0 < count_range ?range" by simp
  have h5: "at (m_objects ?obj) (subObjectIndex ?range + int 0) = Inr (Some (exampleStruct 5 Initialized []))"
    by (simp add: exampleArray_def at_def)
  have h6: "hasUserArgs (m_userProvidedSpecializationArgs ?obj) (subObjectIndex ?range + int 0)"
    by (simp add: exampleArray_def hasUserArgs_def)
  have h7: "m_userProvidedSpecializationArgs ?obj ! nat (subObjectIndex ?range + int 0) = Some (exampleArgs [7])"
    by (simp add: exampleArray_def)
  have h8: "wellFormedList (exampleArgs [7])"
    by (simp add: wellFormedList_def exampleArgs_def)
  note inst = user_args_override [where B = exampleBackend and args = emptyList and out = "exampleArgs [7, 6]",
      OF h1 h2 h3 h4 h5 h6 h7 h8]
  have wf: "wellFormedList emptyList" by (simp add: wellFormedList_def emptyList_def)
  have later: "\<not> derivedAt (m_objects ?obj) (m_userProvidedSpecializationArgs ?obj)
                   (subObjectIndex ?range + int j)" if "0 < j \<and> int j < count_range ?range" for j
  proof -
    from that have "j = 1" by simp
    then show ?thesis by (simp add: exampleArray_def derivedAt_def at_def)
  qed
  have other: "with_objects ((m_objects ?obj)[nat (subObjectIndex ?range + int 0) :=
                   Some (exampleStruct 9 Initialized [])]) ?obj =
               exampleArray [Some (exampleStruct 9 Initialized []), None, Some (exampleStruct 6 Initialized [])] ?user"
    by (simp add: exampleArray_def with_objects_def)
  from inst have "collectSpecializationArgs exampleBackend
          (with_objects ((m_objects ?obj)[nat (subObjectIndex ?range + int 0) :=
              Some (exampleStruct 9 Initialized [])]) ?obj) emptyList =
        collectSpecializationArgs exampleBackend ?obj emptyList"
    by blast
  then have "collectSpecializationArgs exampleBackend
          (exampleArray [Some (exampleStruct 9 Initialized []), None, Some (exampleStruct 6 Initialized [])] ?user)
          emptyList =
        collectSpecializationArgs exampleBackend ?obj emptyList"
    by (simp only: other)
  moreover
  from inst wf later collect_later_unbound
  have "\<exists>before after tb ta.
      componentIDs (exampleArgs [7, 6]) = before @ componentIDs (exampleArgs [7]) @ after \<and>
      map type (components (exampleArgs [7, 6])) = tb @ map type (components (exampleArgs [7])) @ ta \<and>
      length tb = length before"
    by blast
  ultimately show ?thesis using collect_later_unbound by blast
qed

end
